theory Spec2Isabelle
  imports Main
begin

section \<open>The communicator of lib/communicator.py\<close>

text \<open>
  A shallow embedding of \<^verbatim>\<open>lib/communicator.py\<close>: the public key cache, the
  ciphers (the one we build for a destination and the one we receive from a peer) and
  the communicator that encodes and decodes \<^verbatim>\<open>ClientCommunication\<close> frames.
  Python 2 byte strings are HOL strings. Every exception of the source is a value of
  \<open>error\<close>; a method that mutates its object or the process returns the new state next
  to its result, also when it raises, as the mutation survives the exception.
\<close>

type_synonym bytes = string

subsection \<open>Exceptions\<close>

text \<open>
  The exceptions of the libraries the module calls (M2Crypto, zlib, protobuf), then
  those of the module (\<^verbatim>\<open>DecodingError\<close>, \<^verbatim>\<open>DecryptionError\<close>,
  \<^verbatim>\<open>RekeyError\<close>, \<^verbatim>\<open>UnknownClientCert\<close>) with the builtin ones it raises or
  meets; \<open>Library\<close> is an exception of a library on its way through the module. The
  string is the message. A handler of the source names classes; none of the classes it
  names has a subclass among the others, so a handler is a match on the constructor.
\<close>

datatype library_error =
    RSAError string
  | X509Error string
  | EVPError string
  | ZlibError string
  | DecodeError string

datatype error =
    KeyError string
  | IOError string
  | RuntimeError string
  | AttributeError string
  | TypeError string
  | DecodingError string
  | DecryptionError string
  | RekeyError string
  | UnknownClientCert string
  | Library library_error

subsection \<open>Protocol buffers of jobs.proto\<close>

record CipherProperties =
  name :: string
  key :: bytes
  iv :: bytes
  hmac_key :: bytes

record CipherMetadata =
  source :: string
  signature :: bytes

datatype Compression = UNCOMPRESSED | ZCOMPRESSION | OtherCompression nat

record SignedMessageList =
  sml_timestamp :: int
  compression :: Compression
  message_list :: bytes
  sml_source :: string
  sml_signature :: bytes

datatype AuthorizationState = UNAUTHENTICATED | AUTHENTICATED

record GrrMessage =
  session_id :: string
  args :: bytes
  msg_source :: string
  auth_state :: AuthorizationState

record MessageList =
  job :: "GrrMessage list"

record ClientCommunication =
  api_version :: int
  cc_encrypted_cipher :: bytes
  cc_encrypted_cipher_metadata :: bytes
  cc_iv :: bytes
  encrypted :: bytes
  hmac :: bytes

text \<open>A message as its constructor leaves it: every field at its default.\<close>

definition new_SignedMessageList :: "int \<Rightarrow> SignedMessageList" where
  "new_SignedMessageList ts =
     \<lparr>sml_timestamp = ts, compression = UNCOMPRESSED, message_list = [],
      sml_source = [], sml_signature = []\<rparr>"

definition new_ClientCommunication :: ClientCommunication where
  "new_ClientCommunication =
     \<lparr>api_version = 0, cc_encrypted_cipher = [], cc_encrypted_cipher_metadata = [],
      cc_iv = [], encrypted = [], hmac = []\<rparr>"

subsection \<open>The libraries the module calls\<close>

text \<open>
  M2Crypto, zlib and the protobuf runtime are not part of the repository: they are a
  parameter of the model, one field for each call the module makes. A call that can
  raise returns \<open>library_error + result\<close>. Key objects and certificates are byte strings too.
  \<open>evp_cipher\<close> is \<^verbatim>\<open>EVP.Cipher(alg, key, iv, op)\<close> followed by \<^verbatim>\<open>update\<close> and
  \<^verbatim>\<open>final\<close>; \<open>cert_cn_entries\<close> is the list of the subject's entries for the CN.
\<close>

record prims =
  load_key_string :: "bytes \<Rightarrow> library_error + bytes"
  load_pub_key_bio :: "bytes \<Rightarrow> library_error + bytes"
  load_cert_string :: "bytes \<Rightarrow> library_error + bytes"
  cert_cn_entries :: "bytes \<Rightarrow> string list"
  cert_pub_key :: "bytes \<Rightarrow> bytes"
  rsa_sign :: "bytes \<Rightarrow> bytes \<Rightarrow> string \<Rightarrow> library_error + bytes"
  rsa_verify :: "bytes \<Rightarrow> bytes \<Rightarrow> bytes \<Rightarrow> string \<Rightarrow> library_error + bool"
  public_encrypt :: "bytes \<Rightarrow> bytes \<Rightarrow> library_error + bytes"
  private_decrypt :: "bytes \<Rightarrow> bytes \<Rightarrow> library_error + bytes"
  evp_cipher :: "string \<Rightarrow> bytes \<Rightarrow> bytes \<Rightarrow> nat \<Rightarrow> bytes \<Rightarrow> library_error + bytes"
  evp_hmac :: "bytes \<Rightarrow> string \<Rightarrow> bytes \<Rightarrow> bytes"
  sha256 :: "bytes \<Rightarrow> bytes"
  zlib_compress :: "bytes \<Rightarrow> bytes"
  zlib_decompress :: "bytes \<Rightarrow> library_error + bytes"
  SerializeCipherProperties :: "CipherProperties \<Rightarrow> bytes"
  ParseCipherProperties :: "bytes \<Rightarrow> library_error + CipherProperties"
  SerializeCipherMetadata :: "CipherMetadata \<Rightarrow> bytes"
  ParseCipherMetadata :: "bytes \<Rightarrow> library_error + CipherMetadata"
  SerializeSignedMessageList :: "SignedMessageList \<Rightarrow> bytes"
  ParseSignedMessageList :: "bytes \<Rightarrow> library_error + SignedMessageList"
  SerializeMessageList :: "MessageList \<Rightarrow> bytes"
  ParseMessageList :: "bytes \<Rightarrow> library_error + MessageList"

text \<open>
  What the clock and the random generator give during one call: \<open>clock\<close> is
  \<^verbatim>\<open>long(time.time() * 1000000)\<close>, \<open>rand_key\<close>, \<open>rand_iv\<close> and \<open>rand_hmac_key\<close> are the
  three draws of \<^verbatim>\<open>Cipher.__init__\<close>, \<open>rand_msg_iv\<close> the draw of \<^verbatim>\<open>Encrypt\<close> when
  no iv is given.
\<close>

record env =
  clock :: int
  rand_key :: bytes
  rand_iv :: bytes
  rand_hmac_key :: bytes
  rand_msg_iv :: bytes

definition ENCRYPT :: nat where "ENCRYPT = 1"
definition DECRYPT :: nat where "DECRYPT = 0"

subsection \<open>The caches of lib/utils.py\<close>

text \<open>
  Modelled from the spec: \<^verbatim>\<open>utils.FastStore\<close> is not among the sources. The spec
  describes a bounded LRU cache: \<open>Get\<close> raises \<^verbatim>\<open>KeyError\<close> on a miss and makes the
  entry the most recent one on a hit; \<open>Put\<close> stores the entry as the most recent one and
  drops the oldest entries beyond \<open>max_size\<close>. The most recent entry is first.
\<close>

record ('k, 'v) FastStore =
  max_size :: nat
  entries :: "('k \<times> 'v) list"

definition FastStore_Get ::
  "('k, 'v) FastStore \<Rightarrow> 'k \<Rightarrow> (error + 'v) \<times> ('k, 'v) FastStore" where
  "FastStore_Get s k =
     (case map_of (entries s) k of
        None \<Rightarrow> (Inl (KeyError []), s)
      | Some v \<Rightarrow> (Inr v, s\<lparr>entries := (k, v) # filter (\<lambda>e. fst e \<noteq> k) (entries s)\<rparr>))"

definition FastStore_Put ::
  "('k, 'v) FastStore \<Rightarrow> 'k \<Rightarrow> 'v \<Rightarrow> ('k, 'v) FastStore" where
  "FastStore_Put s k v =
     s\<lparr>entries := take (max_size s) ((k, v) # filter (\<lambda>e. fst e \<noteq> k) (entries s))\<rparr>"

text \<open>
  Modelled from the spec: \<^verbatim>\<open>utils.TimeBasedCache\<close> is not among the sources. The spec
  describes a cache whose entries expire by time, with a TTL that the implementation
  chooses: \<open>max_age\<close>. An entry carries the time it was stored at; \<open>Get\<close> at time \<open>t\<close>
  drops the entries older than \<open>max_age\<close> and raises \<^verbatim>\<open>KeyError\<close> on a miss.
\<close>

record ('k, 'v) TimeBasedCache =
  max_age :: int
  timed_entries :: "('k \<times> int \<times> 'v) list"

definition TimeBasedCache_Get ::
  "('k, 'v) TimeBasedCache \<Rightarrow> 'k \<Rightarrow> int \<Rightarrow> (error + 'v) \<times> ('k, 'v) TimeBasedCache" where
  "TimeBasedCache_Get c k t =
     (let live = filter (\<lambda>e. t - fst (snd e) \<le> max_age c) (timed_entries c);
          c' = c\<lparr>timed_entries := live\<rparr>
      in case map_of live k of
           None \<Rightarrow> (Inl (KeyError []), c')
         | Some (_, v) \<Rightarrow> (Inr v, c'))"

definition TimeBasedCache_Put ::
  "('k, 'v) TimeBasedCache \<Rightarrow> 'k \<Rightarrow> 'v \<Rightarrow> int \<Rightarrow> ('k, 'v) TimeBasedCache" where
  "TimeBasedCache_Put c k v t =
     c\<lparr>timed_entries := (k, t, v) # filter (\<lambda>e. fst e \<noteq> k) (timed_entries c)\<rparr>"

subsection \<open>Ciphers and the communicator's state\<close>

text \<open>
  \<^verbatim>\<open>class Cipher\<close> and its subclass \<^verbatim>\<open>ReceivedCipher\<close>. The fields that the class
  leaves at \<^verbatim>\<open>None\<close> until a constructor fills them are options where a constructor may
  leave them so. The reference to the public key cache is not a field here: it is the
  communicator's own cache, which every method below takes with the communicator.
\<close>

record Cipher =
  c_private_key :: bytes
  cipher :: CipherProperties
  cipher_metadata :: "CipherMetadata option"
  encrypted_cipher :: bytes
  encrypted_cipher_metadata :: "bytes option"
  signature_verified :: bool

record ReceivedCipher = Cipher +
  serialized_cipher :: bytes

definition hash_function_name :: string where "hash_function_name = ''sha256''"
definition cipher_name :: string where "cipher_name = ''aes_128_cbc''"
definition key_size :: nat where "key_size = 128"
definition iv_size :: nat where "iv_size = 128"

text \<open>
  \<^verbatim>\<open>class Communicator\<close>. \<open>timestamp\<close> is \<^verbatim>\<open>self.timestamp\<close>: \<open>None\<close> while the
  attribute does not exist. \<open>STATS\<close> is the process-wide \<^verbatim>\<open>stats.STATS\<close>, as the list
  of the counters incremented, latest first. \<open>private_decrypt_calls\<close> is not a field of
  the source: it counts the calls of \<^verbatim>\<open>private_key.private_decrypt\<close>, the RSA-OAEP
  unwrap, which the source does not count itself.
\<close>

record Communicator =
  cipher_cache :: "(string option, Cipher) TimeBasedCache"
  private_key :: bytes
  encrypted_cipher_cache :: "(bytes, ReceivedCipher) FastStore"
  pub_key_cache :: "(string option, bytes) FastStore"
  cert :: bytes
  common_name :: string
  server_name :: "string option"
  timestamp :: "int option"
  STATS :: "string list"
  private_decrypt_calls :: nat

definition Increment :: "string \<Rightarrow> Communicator \<Rightarrow> Communicator" where
  "Increment counter self = self\<lparr>STATS := counter # STATS self\<rparr>"

subsection \<open>PubKeyCache\<close>

definition GetCNFromCert :: "prims \<Rightarrow> bytes \<Rightarrow> error + string" where
  "GetCNFromCert P c =
     (case cert_cn_entries P c of
        [] \<Rightarrow> Inl (IOError ''Cert has no CN'')
      | cn # _ \<Rightarrow> Inr cn)"

definition PubKeyFromCert :: "prims \<Rightarrow> bytes \<Rightarrow> bytes" where
  "PubKeyFromCert P c = cert_pub_key P c"

definition Put :: "string option \<Rightarrow> bytes \<Rightarrow> Communicator \<Rightarrow> Communicator" where
  "Put destination pub_key self =
     self\<lparr>pub_key_cache := FastStore_Put (pub_key_cache self) destination pub_key\<rparr>"

text \<open>
  \<^verbatim>\<open>GetRSAPublicKey\<close>: a \<^verbatim>\<open>KeyError\<close> or an \<^verbatim>\<open>X509Error\<close> of the lookup or of the
  loading becomes \<^verbatim>\<open>KeyError("No certificate found")\<close>; any other exception passes.
\<close>

definition no_certificate :: "error \<Rightarrow> error" where
  "no_certificate e =
     (case e of
        KeyError _ \<Rightarrow> KeyError ''No certificate found''
      | Library (X509Error _) \<Rightarrow> KeyError ''No certificate found''
      | _ \<Rightarrow> e)"

definition GetRSAPublicKey ::
  "prims \<Rightarrow> string option \<Rightarrow> Communicator \<Rightarrow> (error + bytes) \<times> Communicator" where
  "GetRSAPublicKey P cn self =
     (case FastStore_Get (pub_key_cache self) cn of
        (Inl e, pkc) \<Rightarrow> (Inl (no_certificate e), self\<lparr>pub_key_cache := pkc\<rparr>)
      | (Inr pub_key, pkc) \<Rightarrow>
          (case load_pub_key_bio P pub_key of
             Inl e \<Rightarrow> (Inl (no_certificate (Library e)), self\<lparr>pub_key_cache := pkc\<rparr>)
           | Inr rsa \<Rightarrow> (Inr rsa, self\<lparr>pub_key_cache := pkc\<rparr>)))"

subsection \<open>Cipher\<close>

text \<open>
  \<^verbatim>\<open>Encrypt\<close>, \<^verbatim>\<open>Decrypt\<close> and \<^verbatim>\<open>HMAC\<close> use the key material of \<open>self.cipher\<close>.
  \<^verbatim>\<open>Encrypt\<close> draws a fresh iv when it is given none and returns the iv it used.
\<close>

definition Encrypt ::
  "prims \<Rightarrow> env \<Rightarrow> 'a Cipher_scheme \<Rightarrow> bytes \<Rightarrow> bytes option \<Rightarrow> error + (bytes \<times> bytes)" where
  "Encrypt P e self data iv_arg =
     (let iv' = (case iv_arg of None \<Rightarrow> rand_msg_iv e | Some i \<Rightarrow> i)
      in case evp_cipher P cipher_name (key (cipher self)) iv' ENCRYPT data of
           Inl err \<Rightarrow> Inl (Library err)
         | Inr ctext \<Rightarrow> Inr (iv', ctext))"

definition Decrypt :: "prims \<Rightarrow> 'a Cipher_scheme \<Rightarrow> bytes \<Rightarrow> bytes \<Rightarrow> error + bytes" where
  "Decrypt P self data iv' =
     (case evp_cipher P cipher_name (key (cipher self)) iv' DECRYPT data of
        Inl err \<Rightarrow> Inl (Library err)
      | Inr text \<Rightarrow> Inr text)"

definition HMAC :: "prims \<Rightarrow> 'a Cipher_scheme \<Rightarrow> bytes \<Rightarrow> bytes" where
  "HMAC P self data = evp_hmac P (hmac_key (cipher self)) ''sha1'' data"

text \<open>
  \<^verbatim>\<open>Cipher.__init__\<close>: draw the key material, sign its digest, wrap it for the
  destination (one RSA operation is counted) and encrypt the metadata under the new key
  and iv. Nothing is caught: every exception leaves the constructor.
\<close>

definition Cipher_init ::
  "prims \<Rightarrow> env \<Rightarrow> string \<Rightarrow> string option \<Rightarrow> bytes \<Rightarrow> Communicator
     \<Rightarrow> (error + Cipher) \<times> Communicator" where
  "Cipher_init P e src destination priv comm =
     (let props = \<lparr>name = cipher_name, key = rand_key e, iv = rand_iv e,
                   hmac_key = rand_hmac_key e\<rparr>;
          serialized = SerializeCipherProperties P props;
          digest = sha256 P serialized
      in case load_key_string P priv of
           Inl err \<Rightarrow> (Inl (Library err), comm)
         | Inr pk \<Rightarrow>
        (case rsa_sign P pk digest hash_function_name of
           Inl err \<Rightarrow> (Inl (Library err), comm)
         | Inr sg \<Rightarrow>
        (case GetRSAPublicKey P destination comm of
           (Inl err, comm1) \<Rightarrow> (Inl err, comm1)
         | (Inr rsa_key, comm1) \<Rightarrow>
        (let comm2 = Increment ''grr_rsa_operations'' comm1
         in case public_encrypt P rsa_key serialized of
           Inl err \<Rightarrow> (Inl (Library err), comm2)
         | Inr ec \<Rightarrow>
        (let md = \<lparr>source = src, signature = sg\<rparr>;
             self = \<lparr>c_private_key = priv, cipher = props, cipher_metadata = Some md,
                     encrypted_cipher = ec, encrypted_cipher_metadata = None,
                     signature_verified = False\<rparr>
         in case Encrypt P e self (SerializeCipherMetadata P md) (Some (iv props)) of
           Inl err \<Rightarrow> (Inl err, comm2)
         | Inr (_, ecm) \<Rightarrow>
             (Inr (self\<lparr>encrypted_cipher_metadata := Some ecm,
                        signature_verified := True\<rparr>), comm2))))))"

subsection \<open>ReceivedCipher\<close>

text \<open>
  \<^verbatim>\<open>VerifyCipherSignature\<close>. The handler of the source passes over an
  \<^verbatim>\<open>UnknownClientCert\<close> and an \<^verbatim>\<open>X509Error\<close>; any other exception of the lookup or
  of the verification leaves the method. The object changes only when the method
  returns, so the result carries it.
\<close>

definition pass_unknown :: "error \<Rightarrow> ReceivedCipher \<Rightarrow> error + ReceivedCipher" where
  "pass_unknown err self =
     (case err of
        UnknownClientCert _ \<Rightarrow> Inr self
      | Library (X509Error _) \<Rightarrow> Inr self
      | _ \<Rightarrow> Inl err)"

definition VerifyCipherSignature ::
  "prims \<Rightarrow> ReceivedCipher \<Rightarrow> Communicator \<Rightarrow> (error + ReceivedCipher) \<times> Communicator" where
  "VerifyCipherSignature P self comm =
     (case cipher_metadata self of
        None \<Rightarrow> (Inl (AttributeError ''signature''), comm)
      | Some md \<Rightarrow>
          if signature md \<noteq> [] then
            (let digest = sha256 P (serialized_cipher self)
             in case GetRSAPublicKey P (Some (source md)) comm of
                  (Inl err, comm1) \<Rightarrow> (pass_unknown err self, comm1)
                | (Inr remote_public_key, comm1) \<Rightarrow>
                    (let comm2 = Increment ''grr_rsa_operations'' comm1
                     in case rsa_verify P remote_public_key digest (signature md)
                               hash_function_name of
                          Inl err \<Rightarrow> (pass_unknown (Library err) self, comm2)
                        | Inr ok \<Rightarrow>
                            (Inr (if ok then self\<lparr>signature_verified := True\<rparr> else self),
                             comm2)))
          else (Inr self, comm))"

text \<open>
  \<^verbatim>\<open>ReceivedCipher.__init__\<close>. The private key is loaded before the \<^verbatim>\<open>try\<close>; inside
  it an \<^verbatim>\<open>RSAError\<close> becomes a \<^verbatim>\<open>DecryptionError\<close> and anything else passes.
\<close>

definition rsa_to_decryption :: "error \<Rightarrow> error" where
  "rsa_to_decryption err =
     (case err of Library (RSAError m) \<Rightarrow> DecryptionError m | _ \<Rightarrow> err)"

definition ReceivedCipher_init ::
  "prims \<Rightarrow> ClientCommunication \<Rightarrow> bytes \<Rightarrow> Communicator
     \<Rightarrow> (error + ReceivedCipher) \<times> Communicator" where
  "ReceivedCipher_init P response_comms priv comm =
     (case load_key_string P priv of
        Inl err \<Rightarrow> (Inl (Library err), comm)
      | Inr pk \<Rightarrow>
     (let comm1 = comm\<lparr>private_decrypt_calls := Suc (private_decrypt_calls comm)\<rparr>
      in case private_decrypt P pk (cc_encrypted_cipher response_comms) of
        Inl err \<Rightarrow> (Inl (rsa_to_decryption (Library err)), comm1)
      | Inr ser \<Rightarrow>
     (case ParseCipherProperties P ser of
        Inl err \<Rightarrow> (Inl (rsa_to_decryption (Library err)), comm1)
      | Inr props \<Rightarrow>
     (let self = \<lparr>c_private_key = priv, cipher = props, cipher_metadata = None,
                  encrypted_cipher = cc_encrypted_cipher response_comms,
                  encrypted_cipher_metadata = None, signature_verified = False,
                  serialized_cipher = ser\<rparr>
      in if length (key props) \<noteq> key_size div 8 \<or> length (iv props) \<noteq> iv_size div 8
         then (Inl (DecryptionError ''Invalid cipher.''), comm1)
         else if 3 \<le> api_version response_comms then
           (if length (hmac_key props) \<noteq> key_size div 8
            then (Inl (DecryptionError ''Invalid cipher.''), comm1)
            else
              (case Decrypt P self (cc_encrypted_cipher_metadata response_comms) (iv props) of
                 Inl err \<Rightarrow> (Inl (rsa_to_decryption err), comm1)
               | Inr plain \<Rightarrow>
              (case ParseCipherMetadata P plain of
                 Inl err \<Rightarrow> (Inl (rsa_to_decryption (Library err)), comm1)
               | Inr md \<Rightarrow>
              (case VerifyCipherSignature P
                      (self\<lparr>encrypted_cipher_metadata :=
                               Some (cc_encrypted_cipher_metadata response_comms),
                             cipher_metadata := Some md\<rparr>) comm1 of
                 (Inl err, comm2) \<Rightarrow> (Inl (rsa_to_decryption err), comm2)
               | (Inr self', comm2) \<Rightarrow> (Inr self', comm2)))))
         else (Inr self, comm1)))))"

subsection \<open>Communicator: construction\<close>

text \<open>
  \<^verbatim>\<open>Communicator.__init__\<close> with \<^verbatim>\<open>_LoadOurCertificate\<close>. The constructor sets no
  \<^verbatim>\<open>timestamp\<close> and the class has none. \<open>ttl\<close> is the age limit that
  \<^verbatim>\<open>utils.TimeBasedCache()\<close> chooses; \<open>server_name\<close> is the class attribute, \<^verbatim>\<open>None\<close>.
\<close>

definition Communicator_init :: "prims \<Rightarrow> int \<Rightarrow> bytes \<Rightarrow> error + Communicator" where
  "Communicator_init P ttl certificate =
     (case load_cert_string P certificate of
        Inl err \<Rightarrow> Inl (Library err)
      | Inr c \<Rightarrow>
     (case load_key_string P certificate of
        Inl err \<Rightarrow> Inl (Library err)
      | Inr _ \<Rightarrow>
     (case GetCNFromCert P c of
        Inl err \<Rightarrow> Inl err
      | Inr cn \<Rightarrow>
          Inr (Put (Some cn) (PubKeyFromCert P c)
                 \<lparr>cipher_cache = \<lparr>max_age = ttl, timed_entries = []\<rparr>,
                  private_key = certificate,
                  encrypted_cipher_cache = \<lparr>max_size = 50000, entries = []\<rparr>,
                  pub_key_cache = \<lparr>max_size = 50000, entries = []\<rparr>,
                  cert = c,
                  common_name = cn,
                  server_name = None,
                  timestamp = None,
                  STATS = [],
                  private_decrypt_calls = 0\<rparr>))))"

subsection \<open>Communicator: encoding\<close>

text \<open>
  \<^verbatim>\<open>EncodeMessageList\<close> fills the signed message list it is given; \<open>FLAGS_compression\<close>
  is the flag \<^verbatim>\<open>FLAGS.compression\<close>.
\<close>

definition EncodeMessageList ::
  "prims \<Rightarrow> string \<Rightarrow> MessageList \<Rightarrow> SignedMessageList \<Rightarrow> SignedMessageList" where
  "EncodeMessageList P FLAGS_compression message_list' signed_message_list =
     (let uncompressed_data = SerializeMessageList P message_list';
          signed_message_list1 = signed_message_list\<lparr>message_list := uncompressed_data\<rparr>
      in if FLAGS_compression = ''ZCOMPRESS'' then
           (let compressed_data = zlib_compress P uncompressed_data
            in if length compressed_data < length uncompressed_data
               then signed_message_list1\<lparr>compression := ZCOMPRESSION,
                                         message_list := compressed_data\<rparr>
               else signed_message_list1)
         else signed_message_list1)"

text \<open>
  The \<^verbatim>\<open>try\<close> of \<^verbatim>\<open>EncodeMessages\<close> around the cipher cache: the cached cipher of the
  destination, or on \<^verbatim>\<open>KeyError\<close> a new one, which is stored.
\<close>

definition cipher_for ::
  "prims \<Rightarrow> env \<Rightarrow> string option \<Rightarrow> Communicator \<Rightarrow> (error + Cipher) \<times> Communicator" where
  "cipher_for P e destination self =
     (case TimeBasedCache_Get (cipher_cache self) destination (clock e) of
        (Inr c, cache) \<Rightarrow> (Inr c, self\<lparr>cipher_cache := cache\<rparr>)
      | (Inl (KeyError _), cache) \<Rightarrow>
          (case Cipher_init P e (common_name self) destination (private_key self)
                  (self\<lparr>cipher_cache := cache\<rparr>) of
             (Inl err, self1) \<Rightarrow> (Inl err, self1)
           | (Inr c, self1) \<Rightarrow>
               (Inr c, self1\<lparr>cipher_cache :=
                               TimeBasedCache_Put (cipher_cache self1) destination c (clock e)\<rparr>))
      | (Inl err, cache) \<Rightarrow> (Inl err, self\<lparr>cipher_cache := cache\<rparr>))"

text \<open>
  The branch \<^verbatim>\<open>api_version == 2\<close>: the message list carries our name and our signature
  of its digest.
\<close>

definition sign_message_list ::
  "prims \<Rightarrow> Communicator \<Rightarrow> SignedMessageList \<Rightarrow> error + SignedMessageList" where
  "sign_message_list P self signed_message_list =
     (let signed_message_list1 = signed_message_list\<lparr>sml_source := common_name self\<rparr>;
          digest = sha256 P (message_list signed_message_list1)
      in case load_key_string P (private_key self) of
           Inl err \<Rightarrow> Inl (Library err)
         | Inr pk \<Rightarrow>
             (case rsa_sign P pk digest hash_function_name of
                Inl err \<Rightarrow> Inl (Library err)
              | Inr sg \<Rightarrow> Inr (signed_message_list1\<lparr>sml_signature := sg\<rparr>)))"

text \<open>
  The end of \<^verbatim>\<open>EncodeMessages\<close>, from \<^verbatim>\<open>result.encrypted_cipher = ...\<close> on: the
  symmetric encryption of the serialized list, with a fresh iv and an HMAC from version 3,
  with the iv of the cipher before.
\<close>

definition encrypt_into ::
  "prims \<Rightarrow> env \<Rightarrow> Cipher \<Rightarrow> SignedMessageList \<Rightarrow> int \<Rightarrow> ClientCommunication
     \<Rightarrow> error + ClientCommunication" where
  "encrypt_into P e c signed_message_list api result =
     (let result1 = result\<lparr>cc_encrypted_cipher := encrypted_cipher c\<rparr>;
          serialized_message_list = SerializeSignedMessageList P signed_message_list
      in if 3 \<le> api then
           (case Encrypt P e c serialized_message_list None of
              Inl err \<Rightarrow> Inl err
            | Inr (iv', ctext) \<Rightarrow>
                Inr (result1\<lparr>cc_iv := iv', encrypted := ctext, hmac := HMAC P c ctext,
                             api_version := api\<rparr>))
         else
           (case Encrypt P e c serialized_message_list (Some (iv (cipher c))) of
              Inl err \<Rightarrow> Inl err
            | Inr (_, ctext) \<Rightarrow> Inr (result1\<lparr>encrypted := ctext, api_version := api\<rparr>)))"

text \<open>
  \<^verbatim>\<open>EncodeMessages\<close>. \<open>result\<close> is the \<^verbatim>\<open>ClientCommunication\<close> to fill; the filled one
  is returned with the nonce when the method returns (what an exception leaves half
  filled is not kept). \<open>ts\<close> is the \<^verbatim>\<open>timestamp\<close> argument, \<open>None\<close> when omitted: only
  then is \<^verbatim>\<open>self.timestamp\<close> assigned.
\<close>

definition EncodeMessages ::
  "prims \<Rightarrow> string \<Rightarrow> env \<Rightarrow> MessageList \<Rightarrow> ClientCommunication \<Rightarrow> string option
     \<Rightarrow> int option \<Rightarrow> int \<Rightarrow> Communicator
     \<Rightarrow> (error + (ClientCommunication \<times> int)) \<times> Communicator" where
  "EncodeMessages P FLAGS_compression e message_list' result destination ts api self =
     (if api \<notin> {2, 3} then (Inl (RuntimeError ''Unsupported api version.''), self)
      else
        (let destination1 = (case destination of None \<Rightarrow> server_name self | Some d \<Rightarrow> Some d);
             self1 = (case ts of None \<Rightarrow> self\<lparr>timestamp := Some (clock e)\<rparr> | Some _ \<Rightarrow> self);
             timestamp1 = (case ts of None \<Rightarrow> clock e | Some t \<Rightarrow> t)
         in case cipher_for P e destination1 self1 of
              (Inl err, self2) \<Rightarrow> (Inl err, self2)
            | (Inr c, self2) \<Rightarrow>
           (let signed_message_list =
                  EncodeMessageList P FLAGS_compression message_list'
                    (new_SignedMessageList timestamp1)
            in if api = 2 then
                 (case sign_message_list P self2 signed_message_list of
                    Inl err \<Rightarrow> (Inl err, self2)
                  | Inr signed_message_list1 \<Rightarrow>
                      (case encrypt_into P e c signed_message_list1 api result of
                         Inl err \<Rightarrow> (Inl err, self2)
                       | Inr result1 \<Rightarrow> (Inr (result1, timestamp1), self2)))
               else
                 (case encrypted_cipher_metadata c of
                    None \<Rightarrow> (Inl (TypeError ''encrypted_cipher_metadata''), self2)
                  | Some ecm \<Rightarrow>
                      (case encrypt_into P e c signed_message_list api
                              (result\<lparr>cc_encrypted_cipher_metadata := ecm\<rparr>) of
                         Inl err \<Rightarrow> (Inl err, self2)
                       | Inr result1 \<Rightarrow> (Inr (result1, timestamp1), self2))))))"

subsection \<open>Communicator: decoding\<close>

definition DecompressMessageList :: "prims \<Rightarrow> SignedMessageList \<Rightarrow> error + MessageList" where
  "DecompressMessageList P signed_message_list =
     (case (case compression signed_message_list of
              UNCOMPRESSED \<Rightarrow> Inr (message_list signed_message_list)
            | ZCOMPRESSION \<Rightarrow>
                (case zlib_decompress P (message_list signed_message_list) of
                   Inl (ZlibError m) \<Rightarrow> Inl (DecodingError (''Failed to decompress: '' @ m))
                 | Inl err \<Rightarrow> Inl (Library err)
                 | Inr d \<Rightarrow> Inr d)
            | OtherCompression _ \<Rightarrow> Inl (DecodingError ''Compression scheme not supported'')) of
        Inl err \<Rightarrow> Inl err
      | Inr data \<Rightarrow>
          (case ParseMessageList P data of
             Inl (DecodeError _) \<Rightarrow> Inl (DecodingError ''Proto parsing failed.'')
           | Inl err \<Rightarrow> Inl (Library err)
           | Inr r \<Rightarrow> Inr r))"

text \<open>
  \<^verbatim>\<open>VerifyMessageSignature\<close>, in parts: the branch of the old version, the branch of
  the new one, the \<^verbatim>\<open>if\<close> that chooses between them (\<open>signature_check\<close>), and the
  method itself, which adds the replay check and the faked metadata. The old version
  verifies the signature of the message list with the key of
  \<^verbatim>\<open>signed_message_list.source\<close>; the lookup is not inside any \<^verbatim>\<open>try\<close>. The method
  changes the cipher it is given (its signature flag, its metadata), also on the way to
  an exception, so the cipher is returned in every case.
\<close>

definition verify_old ::
  "prims \<Rightarrow> SignedMessageList \<Rightarrow> Communicator \<Rightarrow> (error + AuthorizationState) \<times> Communicator" where
  "verify_old P signed_message_list self =
     (let digest = sha256 P (message_list signed_message_list)
      in case GetRSAPublicKey P (Some (sml_source signed_message_list)) self of
           (Inl err, self1) \<Rightarrow> (Inl err, self1)
         | (Inr remote_public_key, self1) \<Rightarrow>
             (let self2 = Increment ''grr_rsa_operations'' self1
              in case rsa_verify P remote_public_key digest (sml_signature signed_message_list)
                        hash_function_name of
                   Inl err \<Rightarrow> (Inl (Library err), self2)
                 | Inr ok \<Rightarrow>
                     if ok then (Inr AUTHENTICATED, Increment ''grr_authenticated_messages'' self2)
                     else (Inr UNAUTHENTICATED, self2)))"

definition verify_new ::
  "prims \<Rightarrow> ClientCommunication \<Rightarrow> ReceivedCipher \<Rightarrow> Communicator
     \<Rightarrow> (error + AuthorizationState) \<times> ReceivedCipher \<times> Communicator" where
  "verify_new P response_comms c self =
     (if HMAC P c (encrypted response_comms) \<noteq> hmac response_comms
      then (Inl (DecryptionError ''HMAC verification failed.''), c, self)
      else
        (case (if \<not> signature_verified c then VerifyCipherSignature P c self
               else (Inr c, self)) of
           (Inl err, self1) \<Rightarrow> (Inl err, c, self1)
         | (Inr c1, self1) \<Rightarrow>
             if signature_verified c1
             then (Inr AUTHENTICATED, c1, Increment ''grr_authenticated_messages'' self1)
             else (Inr UNAUTHENTICATED, c1, self1)))"

definition signature_check ::
  "prims \<Rightarrow> ClientCommunication \<Rightarrow> SignedMessageList \<Rightarrow> ReceivedCipher \<Rightarrow> int \<Rightarrow> Communicator
     \<Rightarrow> (error + AuthorizationState) \<times> ReceivedCipher \<times> Communicator" where
  "signature_check P response_comms signed_message_list c api self =
     (if api < 3
      then (case verify_old P signed_message_list self of (r, self1) \<Rightarrow> (r, c, self1))
      else verify_new P response_comms c self)"

definition VerifyMessageSignature ::
  "prims \<Rightarrow> ClientCommunication \<Rightarrow> SignedMessageList \<Rightarrow> ReceivedCipher \<Rightarrow> int \<Rightarrow> Communicator
     \<Rightarrow> (error + AuthorizationState) \<times> ReceivedCipher \<times> Communicator" where
  "VerifyMessageSignature P response_comms signed_message_list c api self =
     (case signature_check P response_comms signed_message_list c api self of
        (Inl err, c1, self1) \<Rightarrow> (Inl err, c1, self1)
      | (Inr result, c1, self1) \<Rightarrow>
          (case timestamp self1 of
             None \<Rightarrow> (Inl (AttributeError ''timestamp''), c1, self1)
           | Some t \<Rightarrow>
               (let result1 = (if sml_timestamp signed_message_list \<noteq> t then UNAUTHENTICATED
                               else result);
                    c2 = (case cipher_metadata c1 of
                            None \<Rightarrow> c1\<lparr>cipher_metadata :=
                                         Some \<lparr>source = sml_source signed_message_list,
                                               signature = []\<rparr>\<rparr>
                          | Some _ \<Rightarrow> c1)
                in (Inr result1, c2, self1))))"

text \<open>
  The \<^verbatim>\<open>try\<close> of \<^verbatim>\<open>DecodeMessages\<close> around the cache of encrypted ciphers: the cipher
  seen before, or on \<^verbatim>\<open>KeyError\<close> a new \<^verbatim>\<open>ReceivedCipher\<close>, remembered only when its
  signature is verified.
\<close>

definition received_cipher_for ::
  "prims \<Rightarrow> ClientCommunication \<Rightarrow> Communicator \<Rightarrow> (error + ReceivedCipher) \<times> Communicator" where
  "received_cipher_for P response_comms self =
     (case FastStore_Get (encrypted_cipher_cache self) (cc_encrypted_cipher response_comms) of
        (Inr c, cache) \<Rightarrow> (Inr c, self\<lparr>encrypted_cipher_cache := cache\<rparr>)
      | (Inl (KeyError _), cache) \<Rightarrow>
          (case ReceivedCipher_init P response_comms (private_key self)
                  (self\<lparr>encrypted_cipher_cache := cache\<rparr>) of
             (Inl err, self1) \<Rightarrow> (Inl err, self1)
           | (Inr c, self1) \<Rightarrow>
               if signature_verified c
               then (Inr c, self1\<lparr>encrypted_cipher_cache :=
                                    FastStore_Put (encrypted_cipher_cache self1)
                                      (cc_encrypted_cipher response_comms) c\<rparr>)
               else (Inr c, self1))
      | (Inl err, cache) \<Rightarrow> (Inl err, self\<lparr>encrypted_cipher_cache := cache\<rparr>))"

text \<open>
  The cache holds the cipher object itself, not a copy: what \<^verbatim>\<open>VerifyMessageSignature\<close>
  does to the cipher is done to the entry of the cache, when there is one under the
  key. \<open>aliased\<close> writes the cipher back to that entry, and to no other.
\<close>

definition aliased ::
  "bytes \<Rightarrow> ReceivedCipher \<Rightarrow> (bytes, ReceivedCipher) FastStore
     \<Rightarrow> (bytes, ReceivedCipher) FastStore" where
  "aliased k c s = s\<lparr>entries := map (\<lambda>e. if fst e = k then (k, c) else e) (entries s)\<rparr>"

text \<open>
  The steps of \<^verbatim>\<open>DecodeMessages\<close> between the version check and the authentication: the
  cipher, the decryption with the iv of the frame or else of the cipher, the parsing and
  the decompression. (\<^verbatim>\<open>Rand.rand_add\<close> feeds the random generator, whose draws are
  inputs here.)
\<close>

definition open_frame ::
  "prims \<Rightarrow> ClientCommunication \<Rightarrow> Communicator
     \<Rightarrow> (error + (ReceivedCipher \<times> SignedMessageList \<times> MessageList)) \<times> Communicator" where
  "open_frame P response_comms self =
     (case received_cipher_for P response_comms self of
        (Inl err, self1) \<Rightarrow> (Inl err, self1)
      | (Inr c, self1) \<Rightarrow>
          (let iv' = (if cc_iv response_comms \<noteq> [] then cc_iv response_comms
                      else iv (cipher c))
           in case Decrypt P c (encrypted response_comms) iv' of
                Inl err \<Rightarrow> (Inl err, self1)
              | Inr plain \<Rightarrow>
                  (case ParseSignedMessageList P plain of
                     Inl err \<Rightarrow> (Inl (Library err), self1)
                   | Inr signed_message_list \<Rightarrow>
                       (case DecompressMessageList P signed_message_list of
                          Inl err \<Rightarrow> (Inl err, self1)
                        | Inr message_list' \<Rightarrow>
                            (Inr (c, signed_message_list, message_list'), self1)))))"

text \<open>
  \<^verbatim>\<open>DecodeMessages\<close> returns the messages, each marked with the authentication state
  and the source, the source and the timestamp of the signed list.
\<close>

definition DecodeMessages ::
  "prims \<Rightarrow> ClientCommunication \<Rightarrow> Communicator
     \<Rightarrow> (error + (GrrMessage list \<times> string \<times> int)) \<times> Communicator" where
  "DecodeMessages P response_comms self =
     (if api_version response_comms \<notin> {2, 3}
      then (Inl (DecryptionError ''Unsupported api version.''), self)
      else if cc_encrypted_cipher response_comms \<noteq> [] then
        (case open_frame P response_comms self of
           (Inl err, self1) \<Rightarrow> (Inl err, self1)
         | (Inr (c, signed_message_list, message_list'), self1) \<Rightarrow>
             (case VerifyMessageSignature P response_comms signed_message_list c
                     (api_version response_comms) self1 of
                (r, c1, self2) \<Rightarrow>
                  (let self3 = self2\<lparr>encrypted_cipher_cache :=
                                       aliased (cc_encrypted_cipher response_comms) c1
                                         (encrypted_cipher_cache self2)\<rparr>
                   in case r of
                        Inl err \<Rightarrow> (Inl err, self3)
                      | Inr auth \<Rightarrow>
                          (case cipher_metadata c1 of
                             None \<Rightarrow> (Inl (AttributeError ''source''), self3)
                           | Some md \<Rightarrow>
                               (Inr (map (\<lambda>msg. msg\<lparr>auth_state := auth,
                                                    msg_source := source md\<rparr>)
                                       (job message_list'),
                                     source md,
                                     sml_timestamp signed_message_list), self3)))))
      else (Inl (DecryptionError ''Server response is not encrypted.''), self))"

subsection \<open>What the claims speak of\<close>

text \<open>Decoding a sequence of frames, one after the other, whatever each decoding gives.\<close>

definition decode_all ::
  "prims \<Rightarrow> ClientCommunication list \<Rightarrow> Communicator \<Rightarrow> Communicator" where
  "decode_all P frames self = foldl (\<lambda>s f. snd (DecodeMessages P f s)) self frames"

text \<open>Every cipher of the cache of encrypted ciphers has its signature verified.\<close>

definition all_verified :: "Communicator \<Rightarrow> bool" where
  "all_verified self =
     list_all (\<lambda>e. signature_verified (snd e)) (entries (encrypted_cipher_cache self))"

text \<open>
  The states of a communicator: the constructor gives the first one; a key put into the
  public key cache, a server name set (as a subclass does), an encoding and a decoding,
  whether they return or raise, give the next.
\<close>

inductive reachable :: "prims \<Rightarrow> Communicator \<Rightarrow> bool" for P :: prims where
  constructed: "Communicator_init P ttl certificate = Inr self \<Longrightarrow> reachable P self"
| learned: "reachable P self \<Longrightarrow> reachable P (Put cn pub_key self)"
| named: "reachable P self \<Longrightarrow> reachable P (self\<lparr>server_name := n\<rparr>)"
| encoded: "reachable P self \<Longrightarrow>
     reachable P (snd (EncodeMessages P FLAGS_compression e ml result destination ts api self))"
| decoded: "reachable P self \<Longrightarrow> reachable P (snd (DecodeMessages P response_comms self))"






subsection \<open>A small instance of the libraries\<close>

text \<open>
  An instance of the libraries on which the model runs: fields are framed by their
  length in unary, a certificate is the framed common name followed by the secret of
  the key, the private key of a secret is \<open>S\<close> and the secret, its public key \<open>P\<close>
  and the secret. Encrypting prefixes the framed key material (\<open>toy_seal\<close>,
  \<open>toy_wrap\<close>), signing the framed secret; decrypting and verifying compare them. It
  keeps nothing secret; it has the shape of the libraries, which is all the model sees
  of them.
\<close>

definition toy_put :: "string \<Rightarrow> string" where
  "toy_put s = replicate (length s) (CHR ''1'') @ CHR ''0'' # s"

definition toy_get :: "string \<Rightarrow> (string \<times> string) option" where
  "toy_get t =
     (let n = length (takeWhile (\<lambda>c. c = CHR ''1'') t)
      in case drop n t of
           [] \<Rightarrow> None
         | _ # r \<Rightarrow> if n \<le> length r then Some (take n r, drop n r) else None)"

definition toy_put_int :: "int \<Rightarrow> string" where
  "toy_put_int i =
     (if 0 \<le> i then CHR ''+'' # replicate (nat i) (CHR ''x'')
      else CHR ''-'' # replicate (nat (- i)) (CHR ''x''))"

definition toy_get_int :: "string \<Rightarrow> int option" where
  "toy_get_int s =
     (case s of
        [] \<Rightarrow> None
      | c # r \<Rightarrow> if c = CHR ''+'' then Some (int (length r))
                 else if c = CHR ''-'' \<and> r \<noteq> [] then Some (- int (length r))
                 else None)"

definition toy_put_compression :: "Compression \<Rightarrow> string" where
  "toy_put_compression c =
     (case c of UNCOMPRESSED \<Rightarrow> ''U'' | ZCOMPRESSION \<Rightarrow> ''Z''
      | OtherCompression n \<Rightarrow> CHR ''O'' # replicate n (CHR ''x''))"

definition toy_get_compression :: "string \<Rightarrow> Compression option" where
  "toy_get_compression s =
     (if s = ''U'' then Some UNCOMPRESSED
      else if s = ''Z'' then Some ZCOMPRESSION
      else case s of [] \<Rightarrow> None
           | c # r \<Rightarrow> if c = CHR ''O'' then Some (OtherCompression (length r)) else None)"

definition toy_SerializeCipherProperties :: "CipherProperties \<Rightarrow> bytes" where
  "toy_SerializeCipherProperties x =
     toy_put (name x) @ toy_put (key x) @ toy_put (iv x) @ toy_put (hmac_key x)"

definition toy_ParseCipherProperties :: "bytes \<Rightarrow> library_error + CipherProperties" where
  "toy_ParseCipherProperties s =
     (case toy_get s of None \<Rightarrow> Inl (DecodeError ''name'') | Some (n, s1) \<Rightarrow>
     (case toy_get s1 of None \<Rightarrow> Inl (DecodeError ''key'') | Some (k, s2) \<Rightarrow>
     (case toy_get s2 of None \<Rightarrow> Inl (DecodeError ''iv'') | Some (i, s3) \<Rightarrow>
     (case toy_get s3 of None \<Rightarrow> Inl (DecodeError ''hmac_key'') | Some (h, s4) \<Rightarrow>
        if s4 = [] then Inr \<lparr>name = n, key = k, iv = i, hmac_key = h\<rparr>
        else Inl (DecodeError ''trailing'')))))"

definition toy_SerializeCipherMetadata :: "CipherMetadata \<Rightarrow> bytes" where
  "toy_SerializeCipherMetadata x = toy_put (source x) @ toy_put (signature x)"

definition toy_ParseCipherMetadata :: "bytes \<Rightarrow> library_error + CipherMetadata" where
  "toy_ParseCipherMetadata s =
     (case toy_get s of None \<Rightarrow> Inl (DecodeError ''source'') | Some (a, s1) \<Rightarrow>
     (case toy_get s1 of None \<Rightarrow> Inl (DecodeError ''signature'') | Some (b, s2) \<Rightarrow>
        if s2 = [] then Inr \<lparr>source = a, signature = b\<rparr>
        else Inl (DecodeError ''trailing'')))"

definition toy_SerializeSignedMessageList :: "SignedMessageList \<Rightarrow> bytes" where
  "toy_SerializeSignedMessageList x =
     toy_put (toy_put_int (sml_timestamp x)) @ toy_put (toy_put_compression (compression x))
       @ toy_put (message_list x) @ toy_put (sml_source x) @ toy_put (sml_signature x)"

definition toy_ParseSignedMessageList :: "bytes \<Rightarrow> library_error + SignedMessageList" where
  "toy_ParseSignedMessageList s =
     (case toy_get s of None \<Rightarrow> Inl (DecodeError ''timestamp'') | Some (t, s1) \<Rightarrow>
     (case toy_get s1 of None \<Rightarrow> Inl (DecodeError ''compression'') | Some (c, s2) \<Rightarrow>
     (case toy_get s2 of None \<Rightarrow> Inl (DecodeError ''message_list'') | Some (m, s3) \<Rightarrow>
     (case toy_get s3 of None \<Rightarrow> Inl (DecodeError ''source'') | Some (a, s4) \<Rightarrow>
     (case toy_get s4 of None \<Rightarrow> Inl (DecodeError ''signature'') | Some (b, s5) \<Rightarrow>
     (case toy_get_int t of None \<Rightarrow> Inl (DecodeError ''timestamp'') | Some t' \<Rightarrow>
     (case toy_get_compression c of None \<Rightarrow> Inl (DecodeError ''compression'') | Some c' \<Rightarrow>
        if s5 = [] then
          Inr \<lparr>sml_timestamp = t', compression = c', message_list = m, sml_source = a,
               sml_signature = b\<rparr>
        else Inl (DecodeError ''trailing''))))))))"

definition toy_put_message :: "GrrMessage \<Rightarrow> string" where
  "toy_put_message m =
     toy_put (session_id m) @ toy_put (args m) @ toy_put (msg_source m)
       @ (case auth_state m of UNAUTHENTICATED \<Rightarrow> ''u'' | AUTHENTICATED \<Rightarrow> ''a'')"

definition toy_get_message :: "string \<Rightarrow> GrrMessage option" where
  "toy_get_message s =
     (case toy_get s of None \<Rightarrow> None | Some (a, s1) \<Rightarrow>
     (case toy_get s1 of None \<Rightarrow> None | Some (b, s2) \<Rightarrow>
     (case toy_get s2 of None \<Rightarrow> None | Some (c, s3) \<Rightarrow>
        if s3 = ''u'' then
          Some \<lparr>session_id = a, args = b, msg_source = c, auth_state = UNAUTHENTICATED\<rparr>
        else if s3 = ''a'' then
          Some \<lparr>session_id = a, args = b, msg_source = c, auth_state = AUTHENTICATED\<rparr>
        else None)))"

fun toy_get_messages :: "nat \<Rightarrow> string \<Rightarrow> GrrMessage list option" where
  "toy_get_messages 0 s = (if s = [] then Some [] else None)"
| "toy_get_messages (Suc n) s =
     (if s = [] then Some []
      else case toy_get s of
             None \<Rightarrow> None
           | Some (m, r) \<Rightarrow>
               (case toy_get_message m of
                  None \<Rightarrow> None
                | Some msg \<Rightarrow> map_option (Cons msg) (toy_get_messages n r)))"

definition toy_SerializeMessageList :: "MessageList \<Rightarrow> bytes" where
  "toy_SerializeMessageList x = concat (map (\<lambda>m. toy_put (toy_put_message m)) (job x))"

definition toy_ParseMessageList :: "bytes \<Rightarrow> library_error + MessageList" where
  "toy_ParseMessageList s =
     (case toy_get_messages (length s) s of
        None \<Rightarrow> Inl (DecodeError ''job'')
      | Some ms \<Rightarrow> Inr \<lparr>job = ms\<rparr>)"

definition toy_seal :: "bytes \<Rightarrow> bytes \<Rightarrow> bytes \<Rightarrow> bytes" where
  "toy_seal k i data = toy_put k @ toy_put i @ data"

definition toy_unseal :: "bytes \<Rightarrow> bytes \<Rightarrow> bytes \<Rightarrow> library_error + bytes" where
  "toy_unseal k i data =
     (case toy_get data of
        None \<Rightarrow> Inl (EVPError ''bad decrypt'')
      | Some (k', r) \<Rightarrow>
          (case toy_get r of
             None \<Rightarrow> Inl (EVPError ''bad decrypt'')
           | Some (i', d) \<Rightarrow>
               if k' = k \<and> i' = i then Inr d else Inl (EVPError ''bad decrypt'')))"

definition toy_evp_cipher :: "string \<Rightarrow> bytes \<Rightarrow> bytes \<Rightarrow> nat \<Rightarrow> bytes \<Rightarrow> library_error + bytes" where
  "toy_evp_cipher alg k i op data =
     (if op = ENCRYPT then Inr (toy_seal k i data) else toy_unseal k i data)"

definition toy_wrap :: "bytes \<Rightarrow> bytes \<Rightarrow> bytes" where
  "toy_wrap secret m = CHR ''E'' # toy_put secret @ m"

definition toy_unwrap :: "bytes \<Rightarrow> bytes \<Rightarrow> library_error + bytes" where
  "toy_unwrap secret c =
     (case c of
        [] \<Rightarrow> Inl (RSAError ''oaep decoding error'')
      | _ # r \<Rightarrow>
          (case toy_get r of
             None \<Rightarrow> Inl (RSAError ''oaep decoding error'')
           | Some (k, m) \<Rightarrow>
               if k = secret then Inr m else Inl (RSAError ''oaep decoding error'')))"

definition toy_signature :: "bytes \<Rightarrow> bytes \<Rightarrow> bytes" where
  "toy_signature secret digest = CHR ''G'' # toy_put secret @ digest"

definition toy_mac :: "bytes \<Rightarrow> bytes \<Rightarrow> bytes" where
  "toy_mac k data = CHR ''M'' # toy_put k @ data"

definition toy_digest :: "bytes \<Rightarrow> bytes" where
  "toy_digest d = CHR ''H'' # d"

definition toy_load_key :: "bytes \<Rightarrow> library_error + bytes" where
  "toy_load_key pem =
     (case toy_get pem of
        None \<Rightarrow> Inl (RSAError ''no start line'')
      | Some (_, k) \<Rightarrow> Inr (CHR ''S'' # k))"

definition toy_load_pub_key :: "bytes \<Rightarrow> library_error + bytes" where
  "toy_load_pub_key b =
     (case b of
        [] \<Rightarrow> Inl (RSAError ''no start line'')
      | c # _ \<Rightarrow> if c = CHR ''P'' then Inr b else Inl (RSAError ''no start line''))"

definition toy_zlib_compress :: "bytes \<Rightarrow> bytes" where
  "toy_zlib_compress d =
     (if take 4 d = ''1111'' then CHR ''c'' # drop 4 d else CHR ''r'' # d)"

definition toy_zlib_decompress :: "bytes \<Rightarrow> library_error + bytes" where
  "toy_zlib_decompress z =
     (case z of
        [] \<Rightarrow> Inl (ZlibError ''incomplete stream'')
      | c # r \<Rightarrow> if c = CHR ''c'' then Inr (''1111'' @ r)
                 else if c = CHR ''r'' then Inr r
                 else Inl (ZlibError ''incorrect header check''))"

definition toy :: prims where
  "toy =
     \<lparr>load_key_string = toy_load_key,
      load_pub_key_bio = toy_load_pub_key,
      load_cert_string = Inr,
      cert_cn_entries = (\<lambda>c. case toy_get c of None \<Rightarrow> [] | Some (cn, _) \<Rightarrow> [cn]),
      cert_pub_key = (\<lambda>c. case toy_get c of None \<Rightarrow> [] | Some (_, k) \<Rightarrow> CHR ''P'' # k),
      rsa_sign = (\<lambda>priv digest algo. Inr (toy_signature (tl priv) digest)),
      rsa_verify = (\<lambda>pub digest sg algo. Inr (sg = toy_signature (tl pub) digest)),
      public_encrypt = (\<lambda>pub m. Inr (toy_wrap (tl pub) m)),
      private_decrypt = (\<lambda>priv c. toy_unwrap (tl priv) c),
      evp_cipher = toy_evp_cipher,
      evp_hmac = (\<lambda>k algo data. toy_mac k data),
      sha256 = toy_digest,
      zlib_compress = toy_zlib_compress,
      zlib_decompress = toy_zlib_decompress,
      SerializeCipherProperties = toy_SerializeCipherProperties,
      ParseCipherProperties = toy_ParseCipherProperties,
      SerializeCipherMetadata = toy_SerializeCipherMetadata,
      ParseCipherMetadata = toy_ParseCipherMetadata,
      SerializeSignedMessageList = toy_SerializeSignedMessageList,
      ParseSignedMessageList = toy_ParseSignedMessageList,
      SerializeMessageList = toy_SerializeMessageList,
      ParseMessageList = toy_ParseMessageList\<rparr>"

text \<open>
  A client and a server, each as its constructor leaves it and then with the public key
  of the other; the clock and the draws of two calls; two batches.
\<close>

definition toy_client_pem :: bytes where "toy_client_pem = toy_put ''client'' @ ''kc''"
definition toy_server_pem :: bytes where "toy_server_pem = toy_put ''server'' @ ''ks''"

definition toy_new_client :: Communicator where
  "toy_new_client =
     \<lparr>cipher_cache = \<lparr>max_age = 600, timed_entries = []\<rparr>,
      private_key = toy_client_pem,
      encrypted_cipher_cache = \<lparr>max_size = 50000, entries = []\<rparr>,
      pub_key_cache = \<lparr>max_size = 50000, entries = [(Some ''client'', ''Pkc'')]\<rparr>,
      cert = toy_client_pem, common_name = ''client'', server_name = None,
      timestamp = None, STATS = [], private_decrypt_calls = 0\<rparr>"

definition toy_new_server :: Communicator where
  "toy_new_server =
     \<lparr>cipher_cache = \<lparr>max_age = 600, timed_entries = []\<rparr>,
      private_key = toy_server_pem,
      encrypted_cipher_cache = \<lparr>max_size = 50000, entries = []\<rparr>,
      pub_key_cache = \<lparr>max_size = 50000, entries = [(Some ''server'', ''Pks'')]\<rparr>,
      cert = toy_server_pem, common_name = ''server'', server_name = None,
      timestamp = None, STATS = [], private_decrypt_calls = 0\<rparr>"

definition toy_client :: Communicator where
  "toy_client = Put (Some ''server'') ''Pks'' toy_new_client"

definition toy_server :: Communicator where
  "toy_server = Put (Some ''client'') ''Pkc'' toy_new_server"

definition toy_env :: env where
  "toy_env = \<lparr>clock = 7, rand_key = ''0123456789abcdef'', rand_iv = ''fedcba9876543210'',
              rand_hmac_key = ''00112233445566ff'', rand_msg_iv = ''a1b2c3d4e5f6a7b8''\<rparr>"

definition toy_env' :: env where
  "toy_env' = \<lparr>clock = 9, rand_key = ''fedcba9876543210'', rand_iv = ''0123456789abcdef'',
               rand_hmac_key = ''ffeeddccbbaa9988'', rand_msg_iv = ''b8a7f6e5d4c3b2a1''\<rparr>"

definition toy_request :: MessageList where
  "toy_request = \<lparr>job = [\<lparr>session_id = ''s1'', args = ''ls'', msg_source = [],
                           auth_state = UNAUTHENTICATED\<rparr>]\<rparr>"

definition toy_reply :: MessageList where
  "toy_reply = \<lparr>job = [\<lparr>session_id = ''s1'', args = ''ok'', msg_source = [],
                         auth_state = UNAUTHENTICATED\<rparr>]\<rparr>"

text \<open>
  The client after it has sent a request with no timestamp given (its nonce is the
  clock, 7), and the frames of the server's reply, which echo the nonce 7 or carry the
  stale value 8, in either version.
\<close>

definition toy_client_sent :: Communicator where
  "toy_client_sent =
     snd (EncodeMessages toy ''ZCOMPRESS'' toy_env toy_request new_ClientCommunication
            (Some ''server'') None 3 toy_client)"

definition toy_frame :: "int \<Rightarrow> int \<Rightarrow> ClientCommunication" where
  "toy_frame api t =
     (case fst (EncodeMessages toy ''ZCOMPRESS'' toy_env' toy_reply new_ClientCommunication
                  (Some ''client'') (Some t) api toy_server) of
        Inl _ \<Rightarrow> new_ClientCommunication
      | Inr (frame, _) \<Rightarrow> frame)"

text \<open>
  The reply in version 3 with its HMAC replaced; the same with, in place of the
  encrypted list, the encryption under the session key of a list whose compression
  scheme is unknown; and a client that has sent with the nonce 7 but has not the
  server's public key.
\<close>

definition toy_tampered :: ClientCommunication where
  "toy_tampered = (toy_frame 3 7)\<lparr>hmac := ''tampered''\<rparr>"

definition toy_unsupported :: ClientCommunication where
  "toy_unsupported =
     (toy_frame 3 7)
       \<lparr>encrypted :=
          (case evp_cipher toy cipher_name (rand_key toy_env') (cc_iv (toy_frame 3 7)) ENCRYPT
                  (SerializeSignedMessageList toy
                     \<lparr>sml_timestamp = 7, compression = OtherCompression 5, message_list = [],
                      sml_source = [], sml_signature = []\<rparr>) of
             Inl _ \<Rightarrow> []
           | Inr ctext \<Rightarrow> ctext),
        hmac := ''tampered''\<rparr>"

definition toy_stranger :: Communicator where
  "toy_stranger = toy_new_client\<lparr>timestamp := Some 7\<rparr>"




section \<open>Properties\<close>

subsection \<open>The small instance has the laws of the libraries\<close>

lemma takeWhile_ones: "takeWhile (\<lambda>c. c = CHR ''1'') (replicate n (CHR ''1'') @ CHR ''0'' # r)
    = replicate n (CHR ''1'')"
  by (induction n) auto

lemma toy_get_put [simp]: "toy_get (toy_put s @ r) = Some (s, r)"
  by (simp add: toy_get_def toy_put_def takeWhile_ones)

lemma toy_get_put_end [simp]: "toy_get (toy_put s) = Some (s, [])"
  using toy_get_put [of s "[]"] by simp

lemma toy_put_not_Nil [simp]: "toy_put s \<noteq> []"
  by (simp add: toy_put_def)

lemma toy_get_int_put [simp]: "toy_get_int (toy_put_int i) = Some i"
  by (simp add: toy_get_int_def toy_put_int_def)

lemma toy_get_compression_put [simp]: "toy_get_compression (toy_put_compression c) = Some c"
  by (cases c) (simp_all add: toy_get_compression_def toy_put_compression_def)

lemma toy_CipherProperties [simp]:
  "toy_ParseCipherProperties (toy_SerializeCipherProperties x) = Inr x"
  by (simp add: toy_ParseCipherProperties_def toy_SerializeCipherProperties_def)

lemma toy_CipherMetadata [simp]:
  "toy_ParseCipherMetadata (toy_SerializeCipherMetadata x) = Inr x"
  by (simp add: toy_ParseCipherMetadata_def toy_SerializeCipherMetadata_def)

lemma toy_SignedMessageList [simp]:
  "toy_ParseSignedMessageList (toy_SerializeSignedMessageList x) = Inr x"
  by (simp add: toy_ParseSignedMessageList_def toy_SerializeSignedMessageList_def)

lemma toy_get_put_message [simp]: "toy_get_message (toy_put_message m) = Some m"
  by (cases m, cases "auth_state m")
     (simp_all add: toy_get_message_def toy_put_message_def)

lemma toy_get_messages_put:
  "length ms \<le> n \<Longrightarrow>
   toy_get_messages n (concat (map (\<lambda>m. toy_put (toy_put_message m)) ms)) = Some ms"
proof (induction ms arbitrary: n)
  case Nil
  then show ?case by (cases n) simp_all
next
  case (Cons m ms)
  then obtain k where n: "n = Suc k" and k: "length ms \<le> k"
    by (cases n) auto
  from Cons.IH [OF k] show ?case
    by (simp add: n)
qed

lemma length_toy_messages:
  "length ms \<le> length (concat (map (\<lambda>m. toy_put (toy_put_message m)) ms))"
proof (induction ms)
  case Nil
  then show ?case by simp
next
  case (Cons m ms)
  have "0 < length (toy_put (toy_put_message m))"
    by simp
  with Cons have "Suc (length ms) \<le> length (toy_put (toy_put_message m))
      + length (concat (map (\<lambda>m. toy_put (toy_put_message m)) ms))"
    by linarith
  then show ?case by simp
qed

lemma toy_MessageList [simp]:
  "toy_ParseMessageList (toy_SerializeMessageList x) = Inr x"
  by (simp add: toy_ParseMessageList_def toy_SerializeMessageList_def
        toy_get_messages_put [OF length_toy_messages])

lemma toy_zlib [simp]: "toy_zlib_decompress (toy_zlib_compress d) = Inr d"
proof (cases "take 4 d = ''1111''")
  case True
  then have "''1111'' @ drop 4 d = d"
    by (metis append_take_drop_id)
  with True show ?thesis
    by (simp add: toy_zlib_decompress_def toy_zlib_compress_def)
next
  case False
  then show ?thesis
    by (simp add: toy_zlib_decompress_def toy_zlib_compress_def)
qed

lemma toy_unseal_seal [simp]: "toy_unseal k i (toy_seal k i d) = Inr d"
  by (simp add: toy_unseal_def toy_seal_def)

lemma toy_unwrap_wrap [simp]: "toy_unwrap secret (toy_wrap secret m) = Inr m"
  by (simp add: toy_unwrap_def toy_wrap_def)

lemma toy_not_Nil [simp]:
  "toy_wrap secret m \<noteq> []" "toy_signature secret d \<noteq> []" "toy_mac k d \<noteq> []"
  by (simp_all add: toy_wrap_def toy_signature_def toy_mac_def)

lemma toy_load_key [simp]: "toy_load_key (toy_put cn @ secret) = Inr (CHR ''S'' # secret)"
  by (simp add: toy_load_key_def)

lemma toy_load_pub_key [simp]: "toy_load_pub_key (CHR ''P'' # secret) = Inr (CHR ''P'' # secret)"
  by (simp add: toy_load_pub_key_def)



subsection \<open>Running the model\<close>

text \<open>
  The equations that run the model on the small instance. The frames stay in terms of
  \<open>toy_seal\<close>, \<open>toy_wrap\<close> and the serializations, which the laws above undo.
\<close>

lemmas toy_defs = toy_def toy_evp_cipher_def
  toy_client_pem_def toy_server_pem_def toy_new_client_def toy_new_server_def toy_client_def
  toy_server_def toy_env_def toy_env'_def toy_request_def toy_reply_def toy_client_sent_def
  toy_frame_def toy_tampered_def toy_unsupported_def toy_stranger_def

lemmas model_defs = Communicator_init_def GetCNFromCert_def PubKeyFromCert_def Put_def FastStore_Put_def
  FastStore_Get_def TimeBasedCache_Get_def TimeBasedCache_Put_def GetRSAPublicKey_def no_certificate_def
  Encrypt_def Decrypt_def HMAC_def Cipher_init_def pass_unknown_def VerifyCipherSignature_def
  rsa_to_decryption_def ReceivedCipher_init_def EncodeMessageList_def cipher_for_def sign_message_list_def
  encrypt_into_def EncodeMessages_def DecompressMessageList_def verify_old_def verify_new_def
  signature_check_def VerifyMessageSignature_def received_cipher_for_def aliased_def open_frame_def
  DecodeMessages_def Increment_def new_SignedMessageList_def new_ClientCommunication_def ENCRYPT_def
  DECRYPT_def hash_function_name_def cipher_name_def key_size_def iv_size_def Let_def

lemma pair_of_fst: "fst x = r \<Longrightarrow> x = (r, snd x)"
  by (cases x) simp

lemma toy_reply_compresses [simp]:
  "length (toy_zlib_compress (toy_SerializeMessageList toy_reply))
     < length (toy_SerializeMessageList toy_reply)"
  by (simp add: toy_zlib_compress_def toy_SerializeMessageList_def toy_reply_def toy_put_def
        toy_put_message_def)

lemma toy_request_compresses [simp]:
  "length (toy_zlib_compress (toy_SerializeMessageList toy_request))
     < length (toy_SerializeMessageList toy_request)"
  by (simp add: toy_zlib_compress_def toy_SerializeMessageList_def toy_request_def toy_put_def
        toy_put_message_def)

text \<open>The scenario: the client sends with the nonce 7 and decodes the replies.\<close>

lemma toy_constructed:
  "Communicator_init toy 600 toy_client_pem = Inr toy_new_client"
  by (simp add: toy_defs model_defs)

lemma toy_client_sends:
  "\<exists>frame. fst (EncodeMessages toy ''ZCOMPRESS'' toy_env toy_request new_ClientCommunication
                   (Some ''server'') None 3 toy_client) = Inr (frame, 7)"
  by (simp add: toy_defs model_defs)

lemma toy_client_sent_timestamp: "timestamp toy_client_sent = Some 7"
  by (simp add: toy_defs model_defs)

lemma toy_decode_stale:
  "fst (DecodeMessages toy (toy_frame 3 8) toy_client_sent) =
     Inr ([\<lparr>session_id = ''s1'', args = ''ok'', msg_source = ''server'',
             auth_state = UNAUTHENTICATED\<rparr>], ''server'', 8)"
  by (simp add: toy_defs model_defs)

lemma toy_frame_versions:
  "api_version (toy_frame 3 7) = 3" "cc_encrypted_cipher (toy_frame 3 7) \<noteq> []"
  "api_version (toy_frame 2 7) = 2" "cc_encrypted_cipher (toy_frame 2 7) \<noteq> []"
  by (simp_all add: toy_defs model_defs)

lemma toy_tampered_versions:
  "api_version toy_tampered = 3" "cc_encrypted_cipher toy_tampered \<noteq> []"
  by (simp_all add: toy_tampered_def toy_frame_versions)

lemma toy_open_fresh:
  "\<exists>c sml ml a.
     fst (open_frame toy (toy_frame 3 7) toy_client) = Inr (c, sml, ml) \<and>
     fst (signature_check toy (toy_frame 3 7) sml c 3
            (snd (open_frame toy (toy_frame 3 7) toy_client))) = Inr a"
  by (simp add: toy_defs model_defs)

lemma toy_open_tampered:
  "\<exists>c sml ml.
     fst (open_frame toy toy_tampered toy_client_sent) = Inr (c, sml, ml) \<and>
     HMAC toy c (encrypted toy_tampered) \<noteq> hmac toy_tampered"
  by (simp add: toy_defs model_defs toy_mac_def)

lemma toy_open_stranger:
  "\<exists>c sml ml.
     fst (open_frame toy (toy_frame 2 7) toy_new_client) = Inr (c, sml, ml) \<and>
     sml_source sml = ''server''"
  by (simp add: toy_defs model_defs)

subsection \<open>What each step leaves unchanged\<close>

lemma FastStore_Get_fields:
  "max_size (snd (FastStore_Get s k)) = max_size s"
  "fst ` set (entries (snd (FastStore_Get s k))) = fst ` set (entries s)"
  "set (entries (snd (FastStore_Get s k))) \<subseteq> set (entries s)"
  by (auto simp: FastStore_Get_def split: option.splits dest: map_of_SomeD
           intro: rev_image_eqI)

lemma GetRSAPublicKey_frame:
  assumes "GetRSAPublicKey P cn s = (r, s')"
  shows "timestamp s' = timestamp s"
    and "encrypted_cipher_cache s' = encrypted_cipher_cache s"
    and "private_decrypt_calls s' = private_decrypt_calls s"
    and "private_key s' = private_key s"
    and "common_name s' = common_name s"
    and "cipher_cache s' = cipher_cache s"
  using assms by (auto simp: GetRSAPublicKey_def split: prod.splits sum.splits)

lemma VerifyCipherSignature_frame:
  assumes "VerifyCipherSignature P c s = (r, s')"
  shows "timestamp s' = timestamp s"
    and "encrypted_cipher_cache s' = encrypted_cipher_cache s"
    and "private_decrypt_calls s' = private_decrypt_calls s"
    and "private_key s' = private_key s"
  using assms
  by (auto simp: VerifyCipherSignature_def Increment_def Let_def
           split: prod.splits sum.splits option.splits if_splits
           dest: GetRSAPublicKey_frame)

lemma VerifyCipherSignature_verified:
  "VerifyCipherSignature P c s = (Inr c', s') \<Longrightarrow> signature_verified c \<Longrightarrow> signature_verified c'"
  by (auto simp: VerifyCipherSignature_def Let_def pass_unknown_def
           split: prod.splits sum.splits option.splits if_splits error.splits library_error.splits)

lemma VerifyCipherSignature_metadata:
  "VerifyCipherSignature P c s = (Inr c', s') \<Longrightarrow> cipher_metadata c' = cipher_metadata c \<and> cipher c' = cipher c"
  by (auto simp: VerifyCipherSignature_def Let_def pass_unknown_def
           split: prod.splits sum.splits option.splits if_splits error.splits library_error.splits)

lemma ReceivedCipher_init_frame:
  assumes "ReceivedCipher_init P f priv s = (r, s')"
  shows "timestamp s' = timestamp s"
    and "encrypted_cipher_cache s' = encrypted_cipher_cache s"
    and "private_key s' = private_key s"
  using assms
  by (auto simp: ReceivedCipher_init_def Let_def
           split: prod.splits sum.splits option.splits if_splits
           dest: VerifyCipherSignature_frame)

lemma verify_old_frame:
  assumes "verify_old P sml s = (r, s')"
  shows "timestamp s' = timestamp s"
    and "encrypted_cipher_cache s' = encrypted_cipher_cache s"
    and "private_decrypt_calls s' = private_decrypt_calls s"
    and "private_key s' = private_key s"
  using assms
  by (auto simp: verify_old_def Increment_def Let_def
           split: prod.splits sum.splits option.splits if_splits
           dest: GetRSAPublicKey_frame)

lemma verify_new_frame:
  assumes "verify_new P f c s = (r, c', s')"
  shows "timestamp s' = timestamp s"
    and "encrypted_cipher_cache s' = encrypted_cipher_cache s"
    and "private_decrypt_calls s' = private_decrypt_calls s"
    and "private_key s' = private_key s"
    and "signature_verified c \<Longrightarrow> signature_verified c'"
  using assms
  by (auto simp: verify_new_def Increment_def Let_def
           split: prod.splits sum.splits option.splits if_splits
           dest: VerifyCipherSignature_frame)

lemma VerifyMessageSignature_frame:
  assumes "VerifyMessageSignature P f sml c api s = (r, c', s')"
  shows "timestamp s' = timestamp s"
    and "encrypted_cipher_cache s' = encrypted_cipher_cache s"
    and "private_decrypt_calls s' = private_decrypt_calls s"
    and "private_key s' = private_key s"
    and "signature_verified c \<Longrightarrow> signature_verified c'"
  using assms
  by (auto simp: VerifyMessageSignature_def signature_check_def Let_def
           split: prod.splits sum.splits option.splits if_splits
           dest: verify_old_frame verify_new_frame)

lemma received_cipher_for_frame:
  assumes "received_cipher_for P f s = (r, s')"
  shows "timestamp s' = timestamp s"
    and "private_key s' = private_key s"
  using assms
  by (auto simp: received_cipher_for_def Let_def
           split: prod.splits sum.splits option.splits if_splits error.splits
           dest: ReceivedCipher_init_frame)

lemma open_frame_frame:
  assumes "open_frame P f s = (r, s')"
  shows "timestamp s' = timestamp s"
    and "private_key s' = private_key s"
  using assms
  by (auto simp: open_frame_def Let_def
           split: prod.splits sum.splits option.splits if_splits
           dest: received_cipher_for_frame)

lemma Cipher_init_frame:
  assumes "Cipher_init P e src d priv s = (r, s')"
  shows "timestamp s' = timestamp s"
    and "encrypted_cipher_cache s' = encrypted_cipher_cache s"
    and "private_decrypt_calls s' = private_decrypt_calls s"
    and "private_key s' = private_key s"
    and "common_name s' = common_name s"
  using assms
  by (auto simp: Cipher_init_def Increment_def Let_def
           split: prod.splits sum.splits option.splits if_splits
           dest: GetRSAPublicKey_frame)

lemma cipher_for_frame:
  assumes "cipher_for P e d s = (r, s')"
  shows "timestamp s' = timestamp s"
    and "encrypted_cipher_cache s' = encrypted_cipher_cache s"
    and "private_decrypt_calls s' = private_decrypt_calls s"
    and "private_key s' = private_key s"
    and "common_name s' = common_name s"
  using assms
  by (auto simp: cipher_for_def Let_def
           split: prod.splits sum.splits option.splits if_splits error.splits
           dest: Cipher_init_frame)

lemma EncodeMessages_frame:
  assumes "EncodeMessages P F e ml result d ts api s = (r, s')"
  shows "encrypted_cipher_cache s' = encrypted_cipher_cache s"
    and "private_decrypt_calls s' = private_decrypt_calls s"
    and "private_key s' = private_key s"
    and "common_name s' = common_name s"
    and "ts \<noteq> None \<Longrightarrow> timestamp s' = timestamp s"
  using assms
  by (auto simp: EncodeMessages_def Let_def
           split: prod.splits sum.splits option.splits if_splits
           dest: cipher_for_frame)

lemma map_of_filter_other:
  "map_of (filter (\<lambda>e. fst e \<noteq> k) xs) k' = (if k' = k then None else map_of xs k')"
  by (induction xs) auto

lemma FastStore_Get_lookup:
  "map_of (entries (snd (FastStore_Get s k))) = map_of (entries s)"
  by (auto simp: FastStore_Get_def map_of_filter_other fun_eq_iff split: option.splits)

lemma GetRSAPublicKey_lookup:
  "map_of (entries (pub_key_cache (snd (GetRSAPublicKey P cn s)))) = map_of (entries (pub_key_cache s))"
  using FastStore_Get_lookup[of "pub_key_cache s" cn]
  by (auto simp: GetRSAPublicKey_def split: prod.splits sum.splits)

lemma GetRSAPublicKey_missing:
  "map_of (entries (pub_key_cache s)) cn = None \<Longrightarrow>
   fst (GetRSAPublicKey P cn s) = Inl (KeyError ''No certificate found'')"
  by (simp add: GetRSAPublicKey_def FastStore_Get_def no_certificate_def)

lemma VerifyCipherSignature_lookup:
  "map_of (entries (pub_key_cache (snd (VerifyCipherSignature P c s)))) = map_of (entries (pub_key_cache s))"
  using GetRSAPublicKey_lookup[of P _ s]
  by (auto simp: VerifyCipherSignature_def Increment_def Let_def
           split: prod.splits sum.splits option.splits
           dest!: arg_cong[where f = snd])

subsection \<open>Compression\<close>

text \<open>
  C7, as amended. Under the policy ZCOMPRESS, \<^verbatim>\<open>EncodeMessageList\<close>, given a list
  marked UNCOMPRESSED (as the fresh list that \<^verbatim>\<open>EncodeMessages\<close> passes is), takes the
  compressed serialization exactly when it is strictly shorter than the raw one, and
  marks the list ZCOMPRESSION then; when the compressed form is as long or longer, the
  list stays marked UNCOMPRESSED and carries the raw bytes.
\<close>

theorem EncodeMessageList_policy:
  assumes "FLAGS_compression = ''ZCOMPRESS''"
    and "compression signed_message_list = UNCOMPRESSED"
  shows "(let raw = SerializeMessageList P ml;
              z = zlib_compress P raw;
              out = EncodeMessageList P FLAGS_compression ml signed_message_list
          in (compression out, message_list out) =
             (if length z < length raw then (ZCOMPRESSION, z) else (UNCOMPRESSED, raw)))"
  using assms by (simp add: EncodeMessageList_def Let_def)

theorem EncodeMessageList_policy_witness:
  "compression (new_SignedMessageList 7) = UNCOMPRESSED \<and>
   compression (EncodeMessageList toy ''ZCOMPRESS'' toy_reply (new_SignedMessageList 7))
     = ZCOMPRESSION \<and>
   length (message_list (EncodeMessageList toy ''ZCOMPRESS'' toy_reply (new_SignedMessageList 7)))
     < length (SerializeMessageList toy toy_reply)"
proof -
  have u: "compression (new_SignedMessageList 7) = UNCOMPRESSED"
    by (simp add: new_SignedMessageList_def)
  have shorter: "length (zlib_compress toy (SerializeMessageList toy toy_reply))
                   < length (SerializeMessageList toy toy_reply)"
    by (simp add: toy_def)
  show ?thesis
    using EncodeMessageList_policy [OF refl u, of toy toy_reply] shorter u
    by (simp add: Let_def)
qed

text \<open>
  C7, as stated, fails: the method never writes the mark UNCOMPRESSED, it leaves the mark
  it finds. The empty batch does not compress to fewer bytes; given a list already marked
  ZCOMPRESSION, the method returns it marked ZCOMPRESSION with the raw bytes.
\<close>

theorem EncodeMessageList_policy_counterexample:
  "length (SerializeMessageList toy \<lparr>job = []\<rparr>)
     \<le> length (zlib_compress toy (SerializeMessageList toy \<lparr>job = []\<rparr>)) \<and>
   compression (EncodeMessageList toy ''ZCOMPRESS'' \<lparr>job = []\<rparr>
                  ((new_SignedMessageList 7)\<lparr>compression := ZCOMPRESSION\<rparr>))
     = ZCOMPRESSION \<and>
   message_list (EncodeMessageList toy ''ZCOMPRESS'' \<lparr>job = []\<rparr>
                   ((new_SignedMessageList 7)\<lparr>compression := ZCOMPRESSION\<rparr>))
     = SerializeMessageList toy \<lparr>job = []\<rparr>"
  by (simp add: EncodeMessageList_def new_SignedMessageList_def toy_def
        toy_SerializeMessageList_def toy_zlib_compress_def Let_def)

subsection \<open>The nonce\<close>

text \<open>
  C8, as amended. A call of \<^verbatim>\<open>EncodeMessages\<close> that returns stores the timestamp it
  returns as \<^verbatim>\<open>self.timestamp\<close> when the caller gave none: it is the clock's value.
  When the caller gives the timestamp, that value is returned and \<^verbatim>\<open>self.timestamp\<close>
  is left as it was.
\<close>

theorem EncodeMessages_timestamp:
  assumes "EncodeMessages P F e ml result d ts api s = (Inr (frame, t), s')"
  shows "(case ts of
            None \<Rightarrow> t = clock e \<and> timestamp s' = Some t
          | Some given \<Rightarrow> t = given \<and> timestamp s' = timestamp s)"
  using assms
  by (auto simp: EncodeMessages_def Let_def
           split: prod.splits sum.splits option.splits if_splits
           dest: cipher_for_frame)

theorem EncodeMessages_timestamp_witness: "timestamp toy_client_sent = Some 7"
proof -
  let ?X = "EncodeMessages toy ''ZCOMPRESS'' toy_env toy_request new_ClientCommunication
              (Some ''server'') None 3 toy_client"
  from toy_client_sends obtain frame where "fst ?X = Inr (frame, 7)" ..
  then have "?X = (Inr (frame, 7), toy_client_sent)"
    unfolding toy_client_sent_def by (rule pair_of_fst)
  from EncodeMessages_timestamp [OF this] show ?thesis by simp
qed

text \<open>
  C8, as stated, fails: the server answers with the timestamp 7 given by the caller; the
  call returns 7 and the server has no \<^verbatim>\<open>self.timestamp\<close> afterwards.
\<close>

theorem EncodeMessages_timestamp_counterexample:
  "map_sum id snd (fst (EncodeMessages toy ''ZCOMPRESS'' toy_env' toy_reply
                          new_ClientCommunication (Some ''client'') (Some 7) 3 toy_server))
     = Inr 7 \<and>
   timestamp (snd (EncodeMessages toy ''ZCOMPRESS'' toy_env' toy_reply
                     new_ClientCommunication (Some ''client'') (Some 7) 3 toy_server))
     \<noteq> Some 7"
  by (simp add: toy_defs model_defs)

subsection \<open>Replay\<close>

lemma VerifyMessageSignature_replay:
  assumes "VerifyMessageSignature P f sml c api s = (Inr a, c', s')"
    and "timestamp s \<noteq> Some (sml_timestamp sml)"
  shows "a = UNAUTHENTICATED"
  using assms
  by (auto simp: VerifyMessageSignature_def signature_check_def Let_def
           split: prod.splits sum.splits option.splits if_splits
           dest: verify_old_frame verify_new_frame)

text \<open>
  C4. Whenever \<^verbatim>\<open>DecodeMessages\<close> returns, in either version, and the timestamp of the
  signed message list (the third component of the result) is not the communicator's
  \<^verbatim>\<open>self.timestamp\<close>, every message returned is UNAUTHENTICATED.
\<close>

theorem DecodeMessages_replay:
  assumes "DecodeMessages P f s = (Inr (msgs, src, t), s')"
    and "timestamp s \<noteq> Some t"
  shows "\<forall>m \<in> set msgs. auth_state m = UNAUTHENTICATED"
  using assms
  by (auto simp: DecodeMessages_def Let_def
           split: prod.splits sum.splits option.splits if_splits
           dest!: open_frame_frame(1) VerifyMessageSignature_replay)

theorem DecodeMessages_replay_witness:
  "timestamp toy_client_sent \<noteq> Some 8 \<and>
   map auth_state (fst (projr (fst (DecodeMessages toy (toy_frame 3 8) toy_client_sent))))
     = [UNAUTHENTICATED]"
proof -
  let ?D = "DecodeMessages toy (toy_frame 3 8) toy_client_sent"
  let ?m = "\<lparr>session_id = ''s1'', args = ''ok'', msg_source = ''server'',
             auth_state = UNAUTHENTICATED\<rparr>"
  have stale: "timestamp toy_client_sent \<noteq> Some 8"
    by (simp add: toy_client_sent_timestamp)
  have "?D = (Inr ([?m], ''server'', 8), snd ?D)"
    using toy_decode_stale by (rule pair_of_fst)
  from DecodeMessages_replay [OF this stale]
  have "\<forall>m \<in> set (fst (projr (fst ?D))). auth_state m = UNAUTHENTICATED"
    by (simp add: toy_decode_stale)
  moreover have "length (fst (projr (fst ?D))) = 1"
    by (simp add: toy_decode_stale)
  ultimately have "map auth_state (fst (projr (fst ?D))) = [UNAUTHENTICATED]"
    by (cases "fst (projr (fst ?D))") auto
  with stale show ?thesis by simp
qed

subsection \<open>A communicator without a timestamp\<close>

lemma VerifyMessageSignature_no_timestamp:
  assumes "VerifyMessageSignature P f sml c api s = (Inr a, c', s')"
  shows "timestamp s \<noteq> None"
  using assms
  by (auto simp: VerifyMessageSignature_def signature_check_def Let_def
           split: prod.splits sum.splits option.splits if_splits
           dest: verify_old_frame verify_new_frame)

lemma VerifyMessageSignature_attribute_error:
  assumes "timestamp s = None"
    and "fst (signature_check P f sml c api s) = Inr a"
  shows "fst (VerifyMessageSignature P f sml c api s) = Inl (AttributeError ''timestamp'')"
  using assms
  by (auto simp: VerifyMessageSignature_def signature_check_def Let_def
           split: prod.splits sum.splits option.splits if_splits
           dest: verify_old_frame verify_new_frame)

text \<open>
  C9, as amended. A communicator that has no \<^verbatim>\<open>self.timestamp\<close> (a fresh one, until
  it encodes with the timestamp omitted) never returns a batch from
  \<^verbatim>\<open>DecodeMessages\<close>, so none marked UNAUTHENTICATED either; and every frame that
  passes the steps before the replay check (the version check, the cipher, the
  decryption, the parsing, the decompression, and the signature or HMAC check of
  \<^verbatim>\<open>VerifyMessageSignature\<close>) fails with the attribute error.
\<close>

theorem DecodeMessages_no_timestamp:
  assumes "timestamp s = None"
  shows "(\<forall>r. fst (DecodeMessages P f s) \<noteq> Inr r) \<and>
         (\<forall>c sml ml s1 a.
            api_version f \<in> {2, 3} \<and> cc_encrypted_cipher f \<noteq> [] \<and>
            open_frame P f s = (Inr (c, sml, ml), s1) \<and>
            fst (signature_check P f sml c (api_version f) s1) = Inr a \<longrightarrow>
            fst (DecodeMessages P f s) = Inl (AttributeError ''timestamp''))"
proof (intro conjI allI impI)
  fix r
  show "fst (DecodeMessages P f s) \<noteq> Inr r"
    using assms
    by (auto simp: DecodeMessages_def Let_def
             split: prod.splits sum.splits option.splits if_splits
             dest!: open_frame_frame(1) VerifyMessageSignature_no_timestamp)
next
  fix c sml ml s1 a
  assume h: "api_version f \<in> {2, 3} \<and> cc_encrypted_cipher f \<noteq> [] \<and>
            open_frame P f s = (Inr (c, sml, ml), s1) \<and>
            fst (signature_check P f sml c (api_version f) s1) = Inr a"
  then have t1: "timestamp s1 = None"
    using open_frame_frame(1) assms by metis
  from VerifyMessageSignature_attribute_error [OF t1] h
  have "fst (VerifyMessageSignature P f sml c (api_version f) s1)
          = Inl (AttributeError ''timestamp'')"
    by blast
  with h show "fst (DecodeMessages P f s) = Inl (AttributeError ''timestamp'')"
    by (auto simp: DecodeMessages_def Let_def split: prod.splits sum.splits)
qed

theorem DecodeMessages_no_timestamp_witness:
  "timestamp toy_client = None \<and>
   fst (DecodeMessages toy (toy_frame 3 7) toy_client) = Inl (AttributeError ''timestamp'')"
proof -
  have t: "timestamp toy_client = None"
    by (simp add: toy_client_def toy_new_client_def Put_def)
  from toy_open_fresh obtain c sml ml a where
    o: "fst (open_frame toy (toy_frame 3 7) toy_client) = Inr (c, sml, ml)" and
    g: "fst (signature_check toy (toy_frame 3 7) sml c 3
            (snd (open_frame toy (toy_frame 3 7) toy_client))) = Inr a"
    by blast
  from o have "open_frame toy (toy_frame 3 7) toy_client =
               (Inr (c, sml, ml), snd (open_frame toy (toy_frame 3 7) toy_client))"
    by (rule pair_of_fst)
  with DecodeMessages_no_timestamp [OF t, of toy "toy_frame 3 7"] g toy_frame_versions
  have "fst (DecodeMessages toy (toy_frame 3 7) toy_client) = Inl (AttributeError ''timestamp'')"
    by (metis insertI1 insertI2)
  with t show ?thesis by simp
qed

text \<open>
  C9, as stated, fails: not every frame fails with the attribute error. A frame of
  version 3 whose HMAC does not match fails with the HMAC error, inside
  \<^verbatim>\<open>VerifyMessageSignature\<close> and before the replay check.
\<close>

theorem DecodeMessages_no_timestamp_counterexample:
  "timestamp toy_client = None \<and>
   fst (DecodeMessages toy toy_tampered toy_client)
     = Inl (DecryptionError ''HMAC verification failed.'')"
  by (simp add: toy_defs model_defs toy_mac_def)

subsection \<open>The HMAC of version 3\<close>

lemma GetRSAPublicKey_errors:
  "GetRSAPublicKey P cn s = (Inl e, s') \<Longrightarrow> (\<exists>m. e = KeyError m) \<or> (\<exists>l. e = Library l)"
  by (auto simp: GetRSAPublicKey_def FastStore_Get_def no_certificate_def
           split: prod.splits sum.splits option.splits library_error.splits)

lemma VerifyCipherSignature_errors:
  "VerifyCipherSignature P c s = (Inl e, s') \<Longrightarrow> e \<noteq> DecryptionError m"
  by (auto simp: VerifyCipherSignature_def pass_unknown_def Let_def
           split: prod.splits sum.splits option.splits if_splits error.splits library_error.splits
           dest: GetRSAPublicKey_errors)

lemma verify_new_hmac:
  "fst (verify_new P f c s) = Inl (DecryptionError ''HMAC verification failed.'') \<longleftrightarrow>
   HMAC P c (encrypted f) \<noteq> hmac f"
  by (auto simp: verify_new_def split: prod.splits sum.splits if_splits
           dest: VerifyCipherSignature_errors)

lemma VerifyMessageSignature_hmac:
  assumes "3 \<le> api"
  shows "fst (VerifyMessageSignature P f sml c api s)
           = Inl (DecryptionError ''HMAC verification failed.'') \<longleftrightarrow>
         HMAC P c (encrypted f) \<noteq> hmac f"
  using assms verify_new_hmac [of P f c s]
  by (auto simp: VerifyMessageSignature_def signature_check_def Let_def
           split: prod.splits sum.splits option.splits)

text \<open>
  C5, as amended. For every frame of version 3 that passes the steps before the
  authentication (the cipher is found or built, the encrypted list decrypts, parses and
  decompresses), \<^verbatim>\<open>DecodeMessages\<close> fails with the HMAC error if and only if the HMAC
  of the encrypted bytes under the session's \<open>hmac_key\<close> differs from the \<open>hmac\<close>
  field of the frame.
\<close>

theorem DecodeMessages_hmac:
  assumes "api_version f = 3"
    and "cc_encrypted_cipher f \<noteq> []"
    and "open_frame P f s = (Inr (c, sml, ml), s1)"
  shows "fst (DecodeMessages P f s) = Inl (DecryptionError ''HMAC verification failed.'') \<longleftrightarrow>
         HMAC P c (encrypted f) \<noteq> hmac f"
  using assms VerifyMessageSignature_hmac [of 3 P f sml c s1]
  by (auto simp: DecodeMessages_def Let_def split: prod.splits sum.splits option.splits)

theorem DecodeMessages_hmac_witness:
  "api_version toy_tampered = 3 \<and> cc_encrypted_cipher toy_tampered \<noteq> [] \<and>
   fst (DecodeMessages toy toy_tampered toy_client_sent)
     = Inl (DecryptionError ''HMAC verification failed.'')"
proof -
  from toy_open_tampered obtain c sml ml where
    o: "fst (open_frame toy toy_tampered toy_client_sent) = Inr (c, sml, ml)" and
    h: "HMAC toy c (encrypted toy_tampered) \<noteq> hmac toy_tampered"
    by blast
  from o have "open_frame toy toy_tampered toy_client_sent =
               (Inr (c, sml, ml), snd (open_frame toy toy_tampered toy_client_sent))"
    by (rule pair_of_fst)
  from DecodeMessages_hmac [OF toy_tampered_versions this] h toy_tampered_versions
  show ?thesis by simp
qed

text \<open>
  C5, as stated, fails: the HMAC is checked after the decryption, the parsing and the
  decompression. A frame of version 3 whose HMAC does not match and whose list names an
  unknown compression scheme fails with the decoding error, not with the HMAC error.
\<close>

theorem DecodeMessages_hmac_counterexample:
  "api_version toy_unsupported = 3 \<and>
   \<not> isl (fst (received_cipher_for toy toy_unsupported toy_client_sent)) \<and>
   HMAC toy (projr (fst (received_cipher_for toy toy_unsupported toy_client_sent)))
     (encrypted toy_unsupported) \<noteq> hmac toy_unsupported \<and>
   fst (DecodeMessages toy toy_unsupported toy_client_sent)
     = Inl (DecodingError ''Compression scheme not supported'')"
  by (simp add: toy_defs model_defs toy_mac_def)

subsection \<open>A sender whose public key is missing\<close>

lemma ReceivedCipher_init_lookup:
  "map_of (entries (pub_key_cache (snd (ReceivedCipher_init P f priv s))))
     = map_of (entries (pub_key_cache s))"
  using VerifyCipherSignature_lookup
  by (auto simp: ReceivedCipher_init_def Let_def
           split: prod.splits sum.splits option.splits
           dest!: arg_cong [where f = snd])

lemma received_cipher_for_lookup:
  "map_of (entries (pub_key_cache (snd (received_cipher_for P f s))))
     = map_of (entries (pub_key_cache s))"
  using ReceivedCipher_init_lookup [of P f "private_key s"]
  by (auto simp: received_cipher_for_def Let_def
           split: prod.splits sum.splits option.splits error.splits
           dest!: arg_cong [where f = snd])

lemma open_frame_lookup:
  "map_of (entries (pub_key_cache (snd (open_frame P f s))))
     = map_of (entries (pub_key_cache s))"
  using received_cipher_for_lookup [of P f s]
  by (auto simp: open_frame_def Let_def
           split: prod.splits sum.splits option.splits
           dest!: arg_cong [where f = snd])

text \<open>
  C3, as amended. When a frame of version 2 passes the steps before the authentication
  and the public key cache has no entry for \<^verbatim>\<open>signed_message_list.source\<close>,
  \<^verbatim>\<open>DecodeMessages\<close> returns no batch: the \<^verbatim>\<open>KeyError\<close> of \<^verbatim>\<open>GetRSAPublicKey\<close>
  leaves it.
\<close>

theorem DecodeMessages_unknown_sender:
  assumes "api_version f = 2"
    and "cc_encrypted_cipher f \<noteq> []"
    and "open_frame P f s = (Inr (c, sml, ml), s1)"
    and "map_of (entries (pub_key_cache s)) (Some (sml_source sml)) = None"
  shows "fst (DecodeMessages P f s) = Inl (KeyError ''No certificate found'')"
proof -
  have "map_of (entries (pub_key_cache s1)) (Some (sml_source sml)) = None"
    using open_frame_lookup [of P f s] assms(3,4) by simp
  then have "fst (GetRSAPublicKey P (Some (sml_source sml)) s1)
               = Inl (KeyError ''No certificate found'')"
    by (rule GetRSAPublicKey_missing)
  then have "fst (VerifyMessageSignature P f sml c 2 s1) = Inl (KeyError ''No certificate found'')"
    by (auto simp: VerifyMessageSignature_def signature_check_def verify_old_def Let_def
             split: prod.splits sum.splits)
  with assms(1-3) show ?thesis
    by (auto simp: DecodeMessages_def Let_def split: prod.splits sum.splits)
qed

theorem DecodeMessages_unknown_sender_witness:
  "api_version (toy_frame 2 7) = 2 \<and>
   map_of (entries (pub_key_cache toy_new_client)) (Some ''server'') = None \<and>
   fst (DecodeMessages toy (toy_frame 2 7) toy_new_client)
     = Inl (KeyError ''No certificate found'')"
proof -
  from toy_open_stranger obtain c sml ml where
    o: "fst (open_frame toy (toy_frame 2 7) toy_new_client) = Inr (c, sml, ml)" and
    src: "sml_source sml = ''server''"
    by blast
  have miss: "map_of (entries (pub_key_cache toy_new_client)) (Some ''server'') = None"
    by (simp add: toy_new_client_def)
  from o have "open_frame toy (toy_frame 2 7) toy_new_client =
               (Inr (c, sml, ml), snd (open_frame toy (toy_frame 2 7) toy_new_client))"
    by (rule pair_of_fst)
  from DecodeMessages_unknown_sender [OF toy_frame_versions(3,4) this] miss src
  show ?thesis by (simp add: toy_frame_versions)
qed

text \<open>
  C3, as stated, fails: a client that has sent with the nonce 7 and does not know the
  server gets the \<^verbatim>\<open>KeyError\<close> from the reply in version 2, not a batch.
\<close>

theorem DecodeMessages_unknown_sender_counterexample:
  "map_of (entries (pub_key_cache toy_stranger)) (Some ''server'') = None \<and>
   timestamp toy_stranger = Some 7 \<and>
   fst (DecodeMessages toy (toy_frame 2 7) toy_stranger)
     = Inl (KeyError ''No certificate found'')"
  by (simp add: toy_defs model_defs)

text \<open>
  C2. The code does not do what the claim says: \<^verbatim>\<open>VerifyCipherSignature\<close> passes over
  \<^verbatim>\<open>UnknownClientCert\<close> and \<^verbatim>\<open>X509Error\<close>, but \<^verbatim>\<open>GetRSAPublicKey\<close> raises
  \<^verbatim>\<open>KeyError\<close> when the sender is not in the public key cache. The same client gets
  the \<^verbatim>\<open>KeyError\<close> from the reply in version 3, whose cipher names the server.
\<close>

theorem VerifyCipherSignature_unknown_sender_raises:
  "map_of (entries (pub_key_cache toy_stranger)) (Some ''server'') = None \<and>
   fst (DecodeMessages toy (toy_frame 3 7) toy_stranger)
     = Inl (KeyError ''No certificate found'')"
  by (simp add: toy_defs model_defs)

subsection \<open>The cache of encrypted ciphers holds verified ciphers\<close>

lemma all_verified_iff:
  "all_verified s \<longleftrightarrow> (\<forall>e \<in> set (entries (encrypted_cipher_cache s)). signature_verified (snd e))"
  by (simp add: all_verified_def list_all_iff)

lemma FastStore_Put_entries:
  "set (entries (FastStore_Put s k v)) \<subseteq> insert (k, v) (set (entries s))"
  by (auto simp: FastStore_Put_def dest!: in_set_takeD)

lemma FastStore_Get_hit:
  "FastStore_Get s k = (Inr v, s') \<Longrightarrow> (k, v) \<in> set (entries s)"
  by (auto simp: FastStore_Get_def split: option.splits dest: map_of_SomeD)

lemma FastStore_Get_miss:
  "FastStore_Get s k = (Inl e, s') \<Longrightarrow> k \<notin> fst ` set (entries s) \<and> s' = s"
  by (auto simp: FastStore_Get_def map_of_eq_None_iff split: option.splits)

lemma received_cipher_for_verified:
  assumes "all_verified s" and "received_cipher_for P f s = (r, s')"
  shows "all_verified s'"
    and "r = Inr c \<Longrightarrow>
           signature_verified c \<or>
           cc_encrypted_cipher f \<notin> fst ` set (entries (encrypted_cipher_cache s'))"
proof -
  let ?k = "cc_encrypted_cipher f"
  let ?G = "FastStore_Get (encrypted_cipher_cache s) ?k"
  show "all_verified s'"
  proof (cases "fst ?G")
    case (Inr c0)
    then have "s' = s\<lparr>encrypted_cipher_cache := snd ?G\<rparr>"
      using assms(2) by (auto simp: received_cipher_for_def split: prod.splits)
    with assms(1) FastStore_Get_fields(3) [of "encrypted_cipher_cache s" ?k]
    show ?thesis by (auto simp: all_verified_iff)
  next
    case (Inl e)
    then have g: "?G = (Inl e, encrypted_cipher_cache s)"
      using FastStore_Get_miss [of "encrypted_cipher_cache s" ?k e "snd ?G"]
      by (metis prod.collapse)
    then obtain m where e: "e = KeyError m"
      by (auto simp: FastStore_Get_def split: option.splits)
    let ?R = "ReceivedCipher_init P f (private_key s) s"
    have same: "encrypted_cipher_cache (snd ?R) = encrypted_cipher_cache s"
      using ReceivedCipher_init_frame(2) [of P f "private_key s" s "fst ?R" "snd ?R"] by simp
    show ?thesis
    proof (cases "fst ?R")
      case (Inl e')
      then have "s' = snd ?R"
        using assms(2) g e by (auto simp: received_cipher_for_def split: prod.splits)
      with same assms(1) show ?thesis by (simp add: all_verified_iff)
    next
      case (Inr c1)
      show ?thesis
      proof (cases "signature_verified c1")
        case True
        then have "s' = (snd ?R)\<lparr>encrypted_cipher_cache :=
                       FastStore_Put (encrypted_cipher_cache (snd ?R)) ?k c1\<rparr>"
          using assms(2) g e Inr by (auto simp: received_cipher_for_def split: prod.splits)
        with same assms(1) True FastStore_Put_entries [of "encrypted_cipher_cache s" ?k c1]
        show ?thesis by (auto simp: all_verified_iff)
      next
        case False
        then have "s' = snd ?R"
          using assms(2) g e Inr by (auto simp: received_cipher_for_def split: prod.splits)
        with same assms(1) show ?thesis by (simp add: all_verified_iff)
      qed
    qed
  qed
next
  assume r: "r = Inr c"
  let ?k = "cc_encrypted_cipher f"
  let ?G = "FastStore_Get (encrypted_cipher_cache s) ?k"
  show "signature_verified c \<or> ?k \<notin> fst ` set (entries (encrypted_cipher_cache s'))"
  proof (cases "fst ?G")
    case (Inr c0)
    then have "c = c0"
      using assms(2) r by (auto simp: received_cipher_for_def split: prod.splits)
    moreover have "(?k, c0) \<in> set (entries (encrypted_cipher_cache s))"
      using Inr FastStore_Get_hit [of "encrypted_cipher_cache s" ?k c0 "snd ?G"]
      by (metis prod.collapse)
    ultimately show ?thesis
      using assms(1) by (auto simp: all_verified_iff)
  next
    case (Inl e)
    then have g: "?G = (Inl e, encrypted_cipher_cache s)"
      and miss: "?k \<notin> fst ` set (entries (encrypted_cipher_cache s))"
      using FastStore_Get_miss [of "encrypted_cipher_cache s" ?k e "snd ?G"]
      by (metis prod.collapse)+
    then obtain m where e: "e = KeyError m"
      by (auto simp: FastStore_Get_def split: option.splits)
    let ?R = "ReceivedCipher_init P f (private_key s) s"
    have same: "encrypted_cipher_cache (snd ?R) = encrypted_cipher_cache s"
      using ReceivedCipher_init_frame(2) [of P f "private_key s" s "fst ?R" "snd ?R"] by simp
    show ?thesis
    proof (cases "signature_verified c")
      case True
      then show ?thesis by simp
    next
      case False
      then have "s' = snd ?R"
        using assms(2) g e r
        by (auto simp: received_cipher_for_def split: prod.splits sum.splits if_splits)
      with same miss show ?thesis by simp
    qed
  qed
qed

lemma open_frame_state:
  "snd (open_frame P f s) = snd (received_cipher_for P f s)"
  by (auto simp: open_frame_def Let_def split: prod.splits sum.splits)

lemma open_frame_cipher:
  "open_frame P f s = (Inr (c, sml, ml), s1) \<Longrightarrow> received_cipher_for P f s = (Inr c, s1)"
  by (auto simp: open_frame_def Let_def split: prod.splits sum.splits)

lemma aliased_entries:
  "set (entries (aliased k c s)) \<subseteq> set (entries s) \<union> (if k \<in> fst ` set (entries s) then {(k, c)} else {})"
  by (auto simp: aliased_def split: if_splits)

lemma alias_keys_list:
  "fst ` set (map (\<lambda>e. if fst e = k then (k, c) else e) xs) = fst ` set xs"
  by (induction xs) auto

lemma aliased_keys:
  "fst ` set (entries (aliased k c s)) = fst ` set (entries s)"
  unfolding aliased_def by (simp del: set_map add: alias_keys_list)

lemma DecodeMessages_verified:
  assumes "all_verified s"
  shows "all_verified (snd (DecodeMessages P f s))"
proof (cases "api_version f \<in> {2, 3} \<and> cc_encrypted_cipher f \<noteq> []")
  case False
  with assms show ?thesis
    by (auto simp: DecodeMessages_def)
next
  case True
  let ?k = "cc_encrypted_cipher f"
  obtain r s1 where o: "open_frame P f s = (r, s1)"
    by (cases "open_frame P f s")
  then have rc: "received_cipher_for P f s = (fst (received_cipher_for P f s), s1)"
    using open_frame_state [of P f s] by (metis prod.collapse snd_conv)
  have v1: "all_verified s1"
    using received_cipher_for_verified(1) [OF assms rc] .
  show ?thesis
  proof (cases r)
    case (Inl e)
    with True o v1 show ?thesis
      by (auto simp: DecodeMessages_def)
  next
    case (Inr t)
    then obtain c sml ml where t: "r = Inr (c, sml, ml)"
      by (cases t) auto
    from open_frame_cipher [OF o [unfolded t]]
    have rc': "received_cipher_for P f s = (Inr c, s1)" .
    have c: "signature_verified c \<or> ?k \<notin> fst ` set (entries (encrypted_cipher_cache s1))"
      using received_cipher_for_verified(2) [OF assms rc' refl] .
    obtain a c1 s2 where v: "VerifyMessageSignature P f sml c (api_version f) s1 = (a, c1, s2)"
      by (cases "VerifyMessageSignature P f sml c (api_version f) s1") auto
    have same: "encrypted_cipher_cache s2 = encrypted_cipher_cache s1"
      and mono: "signature_verified c \<Longrightarrow> signature_verified c1"
      using VerifyMessageSignature_frame(2,5) [OF v] by auto
    let ?s3 = "s2\<lparr>encrypted_cipher_cache := aliased ?k c1 (encrypted_cipher_cache s2)\<rparr>"
    have "all_verified ?s3"
      using aliased_entries [of ?k c1 "encrypted_cipher_cache s2"] v1 c mono same
      by (auto simp: all_verified_iff split: if_splits)
    moreover have "snd (DecodeMessages P f s) = ?s3"
      using True o t v
      by (auto simp: DecodeMessages_def Let_def split: sum.splits option.splits)
    ultimately show ?thesis by simp
  qed
qed

lemma EncodeMessages_verified:
  "all_verified s \<Longrightarrow> all_verified (snd (EncodeMessages P F e ml result d ts api s))"
  using EncodeMessages_frame(1) [of P F e ml result d ts api s
          "fst (EncodeMessages P F e ml result d ts api s)"
          "snd (EncodeMessages P F e ml result d ts api s)"]
  by (simp add: all_verified_def)

lemma Communicator_init_verified:
  "Communicator_init P ttl certificate = Inr s \<Longrightarrow> all_verified s"
  by (auto simp: Communicator_init_def all_verified_def Put_def split: sum.splits)

lemma reachable_verified: "reachable P s \<Longrightarrow> all_verified s"
proof (induction rule: reachable.induct)
  case (constructed ttl certificate self)
  then show ?case by (rule Communicator_init_verified)
next
  case (learned self cn pub_key)
  then show ?case by (simp add: all_verified_def Put_def)
next
  case (named self n)
  then show ?case by (simp add: all_verified_def)
next
  case (encoded self FLAGS_compression e ml result destination ts api)
  then show ?case by (simp add: EncodeMessages_verified)
next
  case (decoded self response_comms)
  then show ?case by (simp add: DecodeMessages_verified)
qed

text \<open>
  C10. In every state a communicator reaches (from its constructor, by learning public
  keys, by encoding and by decoding, whether the calls return or raise), every cipher of
  the cache of encrypted ciphers has its signature verified; so a cipher that the cache
  serves to a decoding is a verified one.
\<close>

theorem cache_holds_verified_ciphers:
  assumes "reachable P self"
  shows "all_verified self \<and>
         (\<forall>k c cache. FastStore_Get (encrypted_cipher_cache self) k = (Inr c, cache)
            \<longrightarrow> signature_verified c)"
  using reachable_verified [OF assms]
  by (auto simp: all_verified_iff dest!: FastStore_Get_hit)

lemma toy_client_sent_reachable: "reachable toy toy_client_sent"
  unfolding toy_client_sent_def toy_client_def
  by (intro reachable.encoded reachable.learned reachable.constructed) (rule toy_constructed)

lemma FastStore_Get_found:
  "k \<in> fst ` set (entries s) \<Longrightarrow> \<exists>v s'. FastStore_Get s k = (Inr v, s')"
  by (cases "map_of (entries s) k") (auto simp: FastStore_Get_def map_of_eq_None_iff)

lemma toy_decoded_keys:
  "map fst (entries (encrypted_cipher_cache (snd (DecodeMessages toy (toy_frame 3 7) toy_client_sent))))
     = [cc_encrypted_cipher (toy_frame 3 7)]"
  by (simp add: toy_defs model_defs)

theorem cache_holds_verified_ciphers_witness:
  "reachable toy (snd (DecodeMessages toy (toy_frame 3 7) toy_client_sent)) \<and>
   all_verified (snd (DecodeMessages toy (toy_frame 3 7) toy_client_sent)) \<and>
   (\<exists>c cache.
      FastStore_Get
        (encrypted_cipher_cache (snd (DecodeMessages toy (toy_frame 3 7) toy_client_sent)))
        (cc_encrypted_cipher (toy_frame 3 7)) = (Inr c, cache) \<and>
      signature_verified c)"
proof -
  let ?s = "snd (DecodeMessages toy (toy_frame 3 7) toy_client_sent)"
  let ?k = "cc_encrypted_cipher (toy_frame 3 7)"
  have r: "reachable toy ?s"
    using toy_client_sent_reachable by (rule reachable.decoded)
  have "?k \<in> set (map fst (entries (encrypted_cipher_cache ?s)))"
    unfolding toy_decoded_keys by simp
  then have "?k \<in> fst ` set (entries (encrypted_cipher_cache ?s))"
    by simp
  from FastStore_Get_found [OF this] obtain c cache where
    g: "FastStore_Get (encrypted_cipher_cache ?s) ?k = (Inr c, cache)"
    by blast
  from cache_holds_verified_ciphers [OF r] g
  have "all_verified ?s" and "signature_verified c" by blast+
  with r g show ?thesis by blast
qed

subsection \<open>One unwrap for frames of one cipher\<close>

lemma toy_same_cipher:
  "cc_encrypted_cipher (toy_frame 2 7) = cc_encrypted_cipher (toy_frame 3 7)"
  by (simp add: toy_defs model_defs)

lemma toy_first_cipher:
  "\<exists>c. fst (received_cipher_for toy (toy_frame 3 7) toy_client_sent) = Inr c \<and>
        signature_verified c"
  by (simp add: toy_defs model_defs)

lemma toy_client_sent_room: "0 < max_size (encrypted_cipher_cache toy_client_sent)"
  by (simp add: toy_defs model_defs)

lemma ReceivedCipher_init_calls:
  "private_decrypt_calls (snd (ReceivedCipher_init P f priv s)) \<le> Suc (private_decrypt_calls s)"
  by (auto simp: ReceivedCipher_init_def Let_def
           split: prod.splits sum.splits option.splits
           dest!: VerifyCipherSignature_frame(3))

lemma FastStore_Put_key:
  "0 < max_size s \<Longrightarrow> k \<in> fst ` set (entries (FastStore_Put s k v))"
  by (cases "max_size s") (auto simp: FastStore_Put_def)

lemma received_cipher_for_hit:
  assumes "cc_encrypted_cipher f \<in> fst ` set (entries (encrypted_cipher_cache s))"
  shows "private_decrypt_calls (snd (received_cipher_for P f s)) = private_decrypt_calls s"
    and "cc_encrypted_cipher f \<in> fst ` set (entries (encrypted_cipher_cache (snd (received_cipher_for P f s))))"
proof -
  let ?k = "cc_encrypted_cipher f"
  from FastStore_Get_found [OF assms] obtain c cache where
    g: "FastStore_Get (encrypted_cipher_cache s) ?k = (Inr c, cache)" by blast
  then have r: "received_cipher_for P f s = (Inr c, s\<lparr>encrypted_cipher_cache := cache\<rparr>)"
    by (simp add: received_cipher_for_def)
  show "private_decrypt_calls (snd (received_cipher_for P f s)) = private_decrypt_calls s"
    by (simp add: r)
  have "fst ` set (entries cache) = fst ` set (entries (encrypted_cipher_cache s))"
    using FastStore_Get_fields(2) [of "encrypted_cipher_cache s" ?k] g by simp
  with assms show "?k \<in> fst ` set (entries (encrypted_cipher_cache (snd (received_cipher_for P f s))))"
    by (simp add: r)
qed

lemma received_cipher_for_calls:
  "private_decrypt_calls (snd (received_cipher_for P f s)) \<le> Suc (private_decrypt_calls s)"
proof (cases "cc_encrypted_cipher f \<in> fst ` set (entries (encrypted_cipher_cache s))")
  case True
  then show ?thesis by (simp add: received_cipher_for_hit(1))
next
  case False
  then have "map_of (entries (encrypted_cipher_cache s)) (cc_encrypted_cipher f) = None"
    by (simp add: map_of_eq_None_iff)
  then have g: "FastStore_Get (encrypted_cipher_cache s) (cc_encrypted_cipher f)
                  = (Inl (KeyError []), encrypted_cipher_cache s)"
    by (simp add: FastStore_Get_def)
  show ?thesis
    using ReceivedCipher_init_calls [of P f "private_key s" s]
    by (auto simp: received_cipher_for_def g split: prod.splits sum.splits)
qed

lemma received_cipher_for_remembers:
  assumes "received_cipher_for P f s = (Inr c, s1)"
    and "signature_verified c"
    and "0 < max_size (encrypted_cipher_cache s)"
  shows "cc_encrypted_cipher f \<in> fst ` set (entries (encrypted_cipher_cache s1))"
proof (cases "cc_encrypted_cipher f \<in> fst ` set (entries (encrypted_cipher_cache s))")
  case True
  from received_cipher_for_hit(2) [OF this, of P] assms(1) show ?thesis by simp
next
  case False
  then have "map_of (entries (encrypted_cipher_cache s)) (cc_encrypted_cipher f) = None"
    by (simp add: map_of_eq_None_iff)
  then have g: "FastStore_Get (encrypted_cipher_cache s) (cc_encrypted_cipher f)
                  = (Inl (KeyError []), encrypted_cipher_cache s)"
    by (simp add: FastStore_Get_def)
  let ?R = "ReceivedCipher_init P f (private_key s) s"
  have same: "encrypted_cipher_cache (snd ?R) = encrypted_cipher_cache s"
    using ReceivedCipher_init_frame(2) [of P f "private_key s" s "fst ?R" "snd ?R"] by simp
  from assms(1,2) g have
    "s1 = (snd ?R)\<lparr>encrypted_cipher_cache :=
             FastStore_Put (encrypted_cipher_cache (snd ?R)) (cc_encrypted_cipher f) c\<rparr>"
    by (auto simp: received_cipher_for_def split: prod.splits sum.splits if_splits)
  with same assms(3) show ?thesis
    by (simp add: FastStore_Put_key)
qed

lemma DecodeMessages_state:
  assumes "api_version f \<in> {2, 3}" and "cc_encrypted_cipher f \<noteq> []"
  shows "private_decrypt_calls (snd (DecodeMessages P f s))
           = private_decrypt_calls (snd (received_cipher_for P f s))"
    and "fst ` set (entries (encrypted_cipher_cache (snd (DecodeMessages P f s))))
           = fst ` set (entries (encrypted_cipher_cache (snd (received_cipher_for P f s))))"
proof -
  obtain r s1 where o: "open_frame P f s = (r, s1)"
    by (cases "open_frame P f s")
  then have s1: "snd (received_cipher_for P f s) = s1"
    using open_frame_state [of P f s] by simp
  show "private_decrypt_calls (snd (DecodeMessages P f s))
           = private_decrypt_calls (snd (received_cipher_for P f s))"
    using assms o s1
    by (auto simp: DecodeMessages_def Let_def
             split: prod.splits sum.splits option.splits
             dest!: VerifyMessageSignature_frame(3))
  show "fst ` set (entries (encrypted_cipher_cache (snd (DecodeMessages P f s))))
           = fst ` set (entries (encrypted_cipher_cache (snd (received_cipher_for P f s))))"
  proof (cases r)
    case (Inl e)
    with assms o s1 show ?thesis by (simp add: DecodeMessages_def)
  next
    case (Inr t)
    then obtain c sml ml where t: "r = Inr (c, sml, ml)" by (cases t) auto
    obtain a c1 s2 where v: "VerifyMessageSignature P f sml c (api_version f) s1 = (a, c1, s2)"
      by (cases "VerifyMessageSignature P f sml c (api_version f) s1") auto
    have same: "encrypted_cipher_cache s2 = encrypted_cipher_cache s1"
      using VerifyMessageSignature_frame(2) [OF v] .
    have "snd (DecodeMessages P f s)
            = s2\<lparr>encrypted_cipher_cache :=
                   aliased (cc_encrypted_cipher f) c1 (encrypted_cipher_cache s2)\<rparr>"
      using assms o t v
      by (auto simp: DecodeMessages_def Let_def split: sum.splits option.splits)
    with same s1 show ?thesis by (simp add: aliased_keys)
  qed
qed

lemma DecodeMessages_hit:
  assumes "cc_encrypted_cipher f \<in> fst ` set (entries (encrypted_cipher_cache s))"
  shows "private_decrypt_calls (snd (DecodeMessages P f s)) = private_decrypt_calls s"
    and "cc_encrypted_cipher f \<in> fst ` set (entries (encrypted_cipher_cache (snd (DecodeMessages P f s))))"
proof -
  show "private_decrypt_calls (snd (DecodeMessages P f s)) = private_decrypt_calls s"
  proof (cases "api_version f \<in> {2, 3} \<and> cc_encrypted_cipher f \<noteq> []")
    case True
    then show ?thesis
      using DecodeMessages_state(1) [of f P s] received_cipher_for_hit(1) [OF assms, of P]
      by simp
  next
    case False
    then show ?thesis by (auto simp: DecodeMessages_def)
  qed
  show "cc_encrypted_cipher f \<in> fst ` set (entries (encrypted_cipher_cache (snd (DecodeMessages P f s))))"
  proof (cases "api_version f \<in> {2, 3} \<and> cc_encrypted_cipher f \<noteq> []")
    case True
    then show ?thesis
      using DecodeMessages_state(2) [of f P s] received_cipher_for_hit(2) [OF assms, of P]
      by simp
  next
    case False
    then have "snd (DecodeMessages P f s) = s" by (auto simp: DecodeMessages_def)
    with assms show ?thesis by simp
  qed
qed

lemma decode_all_hit:
  assumes "\<forall>f \<in> set fs. cc_encrypted_cipher f = k"
    and "k \<in> fst ` set (entries (encrypted_cipher_cache s))"
  shows "private_decrypt_calls (decode_all P fs s) = private_decrypt_calls s"
  using assms
proof (induction fs arbitrary: s)
  case Nil
  then show ?case by (simp add: decode_all_def)
next
  case (Cons f fs)
  then have k: "cc_encrypted_cipher f = k" by simp
  let ?s' = "snd (DecodeMessages P f s)"
  have "k \<in> fst ` set (entries (encrypted_cipher_cache ?s'))"
    using DecodeMessages_hit(2) [of f s P] Cons.prems(2) k by simp
  with Cons have "private_decrypt_calls (decode_all P fs ?s') = private_decrypt_calls ?s'"
    by simp
  moreover have "private_decrypt_calls ?s' = private_decrypt_calls s"
    using DecodeMessages_hit(1) [of f s P] Cons.prems(2) k by simp
  ultimately show ?case by (simp add: decode_all_def)
qed

text \<open>
  C6, as amended. Decoding N frames that carry the same \<open>encrypted_cipher\<close> bytes calls
  the RSA unwrap at most once, provided the first decoding finds or builds a cipher whose
  signature is verified (and the cache has room for an entry): that cipher is in the cache
  from then on and serves every later decoding. A cipher whose signature is not verified,
  as that of every frame of version 2 is when it is built, is not cached.
\<close>

theorem decode_all_one_unwrap:
  assumes "\<forall>f \<in> set (f0 # fs). cc_encrypted_cipher f = k"
    and "api_version f0 \<in> {2, 3}" and "k \<noteq> []"
    and "received_cipher_for P f0 s = (Inr c, s1)"
    and "signature_verified c"
    and "0 < max_size (encrypted_cipher_cache s)"
  shows "private_decrypt_calls (decode_all P (f0 # fs) s) \<le> private_decrypt_calls s + 1"
proof -
  let ?s' = "snd (DecodeMessages P f0 s)"
  from assms(1) have k0: "cc_encrypted_cipher f0 = k" by simp
  have "k \<in> fst ` set (entries (encrypted_cipher_cache s1))"
    using received_cipher_for_remembers [OF assms(4,5,6)] k0 by simp
  then have "k \<in> fst ` set (entries (encrypted_cipher_cache ?s'))"
    using DecodeMessages_state(2) [of f0 P s] assms(2,3,4) k0 by simp
  moreover from assms(1) have "\<forall>f \<in> set fs. cc_encrypted_cipher f = k" by simp
  ultimately have "private_decrypt_calls (decode_all P fs ?s') = private_decrypt_calls ?s'"
    by (rule decode_all_hit [rotated])
  moreover have "private_decrypt_calls ?s' \<le> Suc (private_decrypt_calls s)"
    using DecodeMessages_state(1) [of f0 P s] assms(2,3) k0
      received_cipher_for_calls [of P f0 s] by simp
  ultimately show ?thesis by (simp add: decode_all_def)
qed

theorem decode_all_one_unwrap_witness:
  "cc_encrypted_cipher (toy_frame 2 7) = cc_encrypted_cipher (toy_frame 3 7) \<and>
   private_decrypt_calls
     (decode_all toy [toy_frame 3 7, toy_frame 3 7, toy_frame 2 7] toy_client_sent)
     \<le> private_decrypt_calls toy_client_sent + 1"
proof -
  let ?k = "cc_encrypted_cipher (toy_frame 3 7)"
  have same: "\<forall>f \<in> set [toy_frame 3 7, toy_frame 3 7, toy_frame 2 7]. cc_encrypted_cipher f = ?k"
    by (simp add: toy_same_cipher)
  from toy_first_cipher obtain c where
    "fst (received_cipher_for toy (toy_frame 3 7) toy_client_sent) = Inr c"
    and v: "signature_verified c" by blast
  then have r: "received_cipher_for toy (toy_frame 3 7) toy_client_sent
                  = (Inr c, snd (received_cipher_for toy (toy_frame 3 7) toy_client_sent))"
    by (simp add: pair_of_fst)
  have api: "api_version (toy_frame 3 7) \<in> {2, 3}"
    by (simp add: toy_frame_versions)
  from decode_all_one_unwrap [OF same api toy_frame_versions(2) r v toy_client_sent_room]
  show ?thesis by (simp add: toy_same_cipher)
qed

text \<open>
  C6, as stated, fails: the same frame of version 2 decoded twice is unwrapped twice, as
  its cipher is never remembered.
\<close>

theorem decode_all_one_unwrap_counterexample:
  "private_decrypt_calls toy_client_sent = 0 \<and>
   private_decrypt_calls (decode_all toy [toy_frame 2 7, toy_frame 2 7] toy_client_sent) = 2"
  by (simp add: toy_defs model_defs decode_all_def)

subsection \<open>The round trip\<close>


























end
